theory Spec2Isabelle
  imports Complex_Main "HOL-Library.Char_ord" "HOL-Library.List_Lexorder" "HOL-Library.Sublist" "HOL-Library.Multiset" "HOL-Library.Product_Lexorder"
begin

section \<open>Data model\<close>

text \<open>
  The shapes of \<^verbatim>\<open>types.ts\<close> as the sources under \<^verbatim>\<open>src/\<close> use them.
  A severity is one of the three string literals \<^verbatim>\<open>"error" | "warning" | "info"\<close>.
\<close>

datatype Severity = Error | Warning | Info

text \<open>
  An AST node: its type tag, its location and its children. The sources under
  \<^verbatim>\<open>src/\<close> only pass the tree on.
\<close>

datatype ASTNode = ASTNode string int int "ASTNode list"

text \<open>
  An \<^verbatim>\<open>AnalysisContext\<close> as \<^verbatim>\<open>analyze.ts\<close> builds it: the tree, the source text
  and the file path. Its fourth field, the \<^verbatim>\<open>issues\<close> array the rules push to, is
  state and is passed separately.
\<close>

record AnalysisContext =
  ast :: ASTNode
  sourceCode :: string
  filePath :: string

text \<open>One element of the array \<^verbatim>\<open>parseAllSourceFiles\<close> returns.\<close>

record ParseResult =
  parsedAst :: ASTNode
  parsedSourceCode :: string
  parsedFilePath :: string

record AIEnhancement =
  explanation :: string
  suggestedFix :: "string option"
  riskScore :: "real option"
  confidence :: real

text \<open>
  An \<^verbatim>\<open>Issue\<close>; \<open>issue_file\<close> is its \<^verbatim>\<open>file\<close>. The last two fields are the dynamic properties
  \<^verbatim>\<open>_needsAIEnhancement\<close> and \<^verbatim>\<open>_aiContext\<close> that
  \<^verbatim>\<open>AIEnhancedRule.apply\<close> attaches; an absent flag reads as \<open>False\<close>.
\<close>

record Issue =
  ruleId :: string
  severity :: Severity
  issue_file :: string
  line :: int
  column :: int
  message :: string
  aiEnhancement :: "AIEnhancement option"
  needsAIEnhancement :: bool
  aiContext :: "AnalysisContext option"

text \<open>
  A \<^verbatim>\<open>Rule\<close>: identifier, description, severity and \<^verbatim>\<open>apply(ast, context)\<close>.
  Applying a rule pushes issues to the context's array or raises; \<open>Inr\<close> carries the
  issues pushed, \<open>Inl\<close> the exception's message.
\<close>

record Rule =
  rule_id :: string
  rule_description :: string
  rule_severity :: Severity
  rule_apply :: "ASTNode \<Rightarrow> AnalysisContext \<Rightarrow> string + Issue list"

section \<open>Reporter (reporter.ts)\<close>

record ReportSummary =
  totalIssues :: nat
  errorCount :: nat
  warningCount :: nat
  infoCount :: nat

record Reporter =
  issues :: "Issue list"

definition newReporter :: Reporter where
  "newReporter = \<lparr> issues = [] \<rparr>"

definition addIssue :: "Issue \<Rightarrow> Reporter \<Rightarrow> Reporter" where
  "addIssue issue r = r\<lparr> issues := issues r @ [issue] \<rparr>"

definition addIssues :: "Issue list \<Rightarrow> Reporter \<Rightarrow> Reporter" where
  "addIssues new r = r\<lparr> issues := issues r @ new \<rparr>"

definition getIssues :: "Reporter \<Rightarrow> Issue list" where
  "getIssues r = issues r"

definition clear :: "Reporter \<Rightarrow> Reporter" where
  "clear r = r\<lparr> issues := [] \<rparr>"

text \<open>One turn of the \<^verbatim>\<open>for\<close> loop of \<^verbatim>\<open>getSummary\<close>: the \<^verbatim>\<open>switch\<close> on the severity.\<close>

fun countIssue :: "ReportSummary \<Rightarrow> Issue \<Rightarrow> ReportSummary" where
  "countIssue summary issue =
     (case severity issue of
        Error \<Rightarrow> summary\<lparr> errorCount := errorCount summary + 1 \<rparr>
      | Warning \<Rightarrow> summary\<lparr> warningCount := warningCount summary + 1 \<rparr>
      | Info \<Rightarrow> summary\<lparr> infoCount := infoCount summary + 1 \<rparr>)"

definition getSummary :: "Reporter \<Rightarrow> ReportSummary" where
  "getSummary r =
     foldl countIssue
       \<lparr> totalIssues = length (issues r), errorCount = 0, warningCount = 0, infoCount = 0 \<rparr>
       (issues r)"

definition hasErrors :: "Reporter \<Rightarrow> bool" where
  "hasErrors r = list_ex (\<lambda>issue. severity issue = Error) (issues r)"

text \<open>The operations of the claim about reachable reporter states, run in order.\<close>

datatype ReporterOp = AddIssue Issue | AddIssues "Issue list" | Clear

fun applyOp :: "Reporter \<Rightarrow> ReporterOp \<Rightarrow> Reporter" where
  "applyOp r (AddIssue i) = addIssue i r"
| "applyOp r (AddIssues is) = addIssues is r"
| "applyOp r Clear = clear r"

definition runOps :: "ReporterOp list \<Rightarrow> Reporter" where
  "runOps ops = foldl applyOp newReporter ops"

definition countSeverity :: "Severity \<Rightarrow> Issue list \<Rightarrow> nat" where
  "countSeverity s xs = length (filter (\<lambda>issue. severity issue = s) xs)"

text \<open>
  The comparator of \<^verbatim>\<open>printReport\<close>. \<^verbatim>\<open>String.prototype.localeCompare\<close> belongs to
  the host and depends on its locale: it is a parameter, \<open>collate\<close>, that gives a
  negative number, zero or a positive number.
\<close>

type_synonym Collation = "string \<Rightarrow> string \<Rightarrow> int"

definition compareIssues :: "Collation \<Rightarrow> Issue \<Rightarrow> Issue \<Rightarrow> int" where
  "compareIssues collate a b =
     (if issue_file a \<noteq> issue_file b then collate (issue_file a) (issue_file b)
      else if line a \<noteq> line b then line a - line b
      else column a - column b)"


text \<open>
  \<^verbatim>\<open>Array.prototype.sort(compareFn)\<close>: the language fixes it to be stable, and for a
  consistent comparator every stable sort gives the same array; it is modelled as the
  stable insertion sort that puts an element before the first one it does not exceed.
\<close>

fun insertBy :: "('a \<Rightarrow> 'a \<Rightarrow> int) \<Rightarrow> 'a \<Rightarrow> 'a list \<Rightarrow> 'a list" where
  "insertBy cmp x [] = [x]"
| "insertBy cmp x (y # ys) = (if cmp x y \<le> 0 then x # y # ys else y # insertBy cmp x ys)"

definition arraySort :: "('a \<Rightarrow> 'a \<Rightarrow> int) \<Rightarrow> 'a list \<Rightarrow> 'a list" where
  "arraySort cmp xs = foldr (insertBy cmp) xs []"

text \<open>
  The lines \<^verbatim>\<open>printReport\<close> writes, without their colours. The loop over the sorted
  issues starts a new group, after a blank line, whenever the file changes.
\<close>

datatype ReportLine =
    NoIssuesFound
  | ReportHeader
  | BlankLine
  | FileHeading string
  | IssueLine Issue
  | SummaryHeading
  | ErrorsLine nat
  | WarningsLine nat
  | InfoLine nat
  | TotalLine nat

fun printIssues :: "string \<Rightarrow> Issue list \<Rightarrow> ReportLine list" where
  "printIssues currentFile [] = []"
| "printIssues currentFile (issue # rest) =
     (if issue_file issue \<noteq> currentFile
      then (if currentFile \<noteq> [] then [BlankLine] else [])
           @ [FileHeading (issue_file issue), IssueLine issue]
           @ printIssues (issue_file issue) rest
      else IssueLine issue # printIssues currentFile rest)"

definition printSummary :: "ReportSummary \<Rightarrow> ReportLine list" where
  "printSummary summary =
     [SummaryHeading]
     @ (if errorCount summary > 0 then [ErrorsLine (errorCount summary)] else [])
     @ (if warningCount summary > 0 then [WarningsLine (warningCount summary)] else [])
     @ (if infoCount summary > 0 then [InfoLine (infoCount summary)] else [])
     @ [TotalLine (totalIssues summary)]"

text \<open>
  \<^verbatim>\<open>printReport\<close> returns the lines written and the reporter afterwards: the sort is
  in place, so the stored issues are left in sorted order.
\<close>

definition printReport :: "Collation \<Rightarrow> Reporter \<Rightarrow> ReportLine list \<times> Reporter" where
  "printReport collate r =
     (if length (issues r) = 0 then ([NoIssuesFound], r)
      else
        (let sortedIssues = arraySort (compareIssues collate) (issues r);
             r' = r\<lparr> issues := sortedIssues \<rparr>
         in (ReportHeader # printIssues [] sortedIssues @ printSummary (getSummary r'), r')))"

text \<open>The issues a report shows, in the order of their lines.\<close>

fun reportedIssues :: "ReportLine list \<Rightarrow> Issue list" where
  "reportedIssues [] = []"
| "reportedIssues (IssueLine issue # ls) = issue # reportedIssues ls"
| "reportedIssues (l # ls) = reportedIssues ls"

section \<open>SARIF output (tasks/analyze.ts)\<close>

record SarifLocation =
  artifactUri :: string
  startLine :: int
  startColumn :: int

record SarifResult =
  sarifRuleId :: string
  messageText :: string
  level :: string
  locations :: "SarifLocation list"

record SarifLog =
  version :: string
  schema :: string
  driverName :: string
  driverVersion :: string
  informationUri :: string
  results :: "SarifResult list"

definition toSarifResult :: "Issue \<Rightarrow> SarifResult" where
  "toSarifResult issue =
     \<lparr> sarifRuleId = ruleId issue,
       messageText = message issue,
       level = (if severity issue = Error then ''error'' else ''warning''),
       locations =
         [\<lparr> artifactUri = issue_file issue, startLine = line issue,
            startColumn = column issue \<rparr>] \<rparr>"

definition sarifLog :: "Issue list \<Rightarrow> SarifLog" where
  "sarifLog issueList =
     \<lparr> version = ''2.1.0'',
       schema = ''https://raw.githubusercontent.com/oasis-tcs/sarif-spec/master/Schemata/sarif-schema-2.1.0.json'',
       driverName = ''SuperAudit'',
       driverVersion = ''1.0.0'',
       informationUri = ''https://github.com/superaudit/hardhat-plugin'',
       results = map toSarifResult issueList \<rparr>"

text \<open>
  \<^verbatim>\<open>outputSARIF\<close> serialises the log with \<^verbatim>\<open>JSON.stringify\<close>, prints it, and
  writes it to a file when an output file is asked for (a missing or empty name is
  falsy). The result is the log and the path written, if any; \<open>sourceFile\<close> is unused,
  as in the source.
\<close>

definition outputSARIF :: "Issue list \<Rightarrow> string \<Rightarrow> string option \<Rightarrow> SarifLog \<times> string option" where
  "outputSARIF issueList sourceFile outputFile =
     (sarifLog issueList,
      (case outputFile of
         None \<Rightarrow> None
       | Some f \<Rightarrow>
           if f = [] then None
           else Some (if suffix ''.sarif'' f then f else f @ ''.sarif'')))"

section \<open>Rule engine\<close>

text \<open>
  Modelled from the spec: the rule engine (\<^verbatim>\<open>RuleEngine\<close> of \<^verbatim>\<open>rules/engine.ts\<close>,
  which \<^verbatim>\<open>analyze.ts\<close> constructs and calls, is not among the sources). Section 4.6:
  for each source unit the rules are applied in registration order and their findings are
  collected into a per-file list; a rule that raises is caught, logged as a rule failure
  naming the rule and the file, and contributes no finding; the per-file lists are
  concatenated across the files. The sort of the aggregate is the one in
  \<^verbatim>\<open>Reporter.printReport\<close>.
\<close>

record RuleFailure =
  failedRule :: string
  failedFile :: string
  failureText :: string

record PassResult =
  findings :: "Issue list"
  failures :: "RuleFailure list"

definition contextOf :: "ParseResult \<Rightarrow> AnalysisContext" where
  "contextOf u =
     \<lparr> ast = parsedAst u, sourceCode = parsedSourceCode u, filePath = parsedFilePath u \<rparr>"

fun applyRules :: "Rule list \<Rightarrow> ParseResult \<Rightarrow> PassResult" where
  "applyRules [] u = \<lparr> findings = [], failures = [] \<rparr>"
| "applyRules (r # rs) u =
     (let rest = applyRules rs u in
      case rule_apply r (parsedAst u) (contextOf u) of
        Inr found \<Rightarrow> rest\<lparr> findings := found @ findings rest \<rparr>
      | Inl err \<Rightarrow>
          rest\<lparr> failures :=
                 \<lparr> failedRule = rule_id r, failedFile = parsedFilePath u, failureText = err \<rparr>
                 # failures rest \<rparr>)"

fun analyzeMultiple :: "Rule list \<Rightarrow> ParseResult list \<Rightarrow> PassResult" where
  "analyzeMultiple rules [] = \<lparr> findings = [], failures = [] \<rparr>"
| "analyzeMultiple rules (u # us) =
     (let here = applyRules rules u; rest = analyzeMultiple rules us in
      \<lparr> findings = findings here @ findings rest, failures = failures here @ failures rest \<rparr>)"

text \<open>
  The registration index of the rule behind each collected finding, in the order of
  \<open>findings (analyzeMultiple rules units)\<close>: rule \<open>k\<close> of the active set has index \<open>k\<close>.
\<close>

fun ruleIndicesFrom :: "nat \<Rightarrow> Rule list \<Rightarrow> ParseResult \<Rightarrow> nat list" where
  "ruleIndicesFrom k [] u = []"
| "ruleIndicesFrom k (r # rs) u =
     (case rule_apply r (parsedAst u) (contextOf u) of
        Inr found \<Rightarrow> replicate (length found) k @ ruleIndicesFrom (Suc k) rs u
      | Inl err \<Rightarrow> ruleIndicesFrom (Suc k) rs u)"

fun ruleIndices :: "Rule list \<Rightarrow> ParseResult list \<Rightarrow> nat list" where
  "ruleIndices rules [] = []"
| "ruleIndices rules (u # us) = ruleIndicesFrom 0 rules u @ ruleIndices rules us"


text \<open>
  The order of two findings by file, then line, then column, the files in the order of
  the collation.
\<close>

definition locationLess :: "Collation \<Rightarrow> Issue \<Rightarrow> Issue \<Rightarrow> bool" where
  "locationLess collate a b =
     ((issue_file a \<noteq> issue_file b \<and> collate (issue_file a) (issue_file b) < 0)
      \<or> (issue_file a = issue_file b
          \<and> (line a < line b \<or> (line a = line b \<and> column a < column b))))"

definition sameLocation :: "Issue \<Rightarrow> Issue \<Rightarrow> bool" where
  "sameLocation a b =
     (issue_file a = issue_file b \<and> line a = line b \<and> column a = column b)"


text \<open>Each collected finding paired with the registration index of its rule.\<close>

definition taggedFindings :: "Rule list \<Rightarrow> ParseResult list \<Rightarrow> (nat \<times> Issue) list" where
  "taggedFindings rules us = zip (ruleIndices rules us) (findings (analyzeMultiple rules us))"

section \<open>Sample data\<close>

text \<open>
  An issue as a rule creates it: no enhancement payload and no dynamic property. The
  sample unit and rules are the concrete inputs of the worked instances below.
\<close>

definition newIssue :: "string \<Rightarrow> Severity \<Rightarrow> string \<Rightarrow> int \<Rightarrow> int \<Rightarrow> string \<Rightarrow> Issue" where
  "newIssue rid sev f l c msg =
     \<lparr> ruleId = rid, severity = sev, issue_file = f, line = l, column = c, message = msg,
       aiEnhancement = None, needsAIEnhancement = False, aiContext = None \<rparr>"

text \<open>A collation for the worked instances: the order of the character codes.\<close>

definition codeUnitOrder :: Collation where
  "codeUnitOrder a b = (if a < b then - 1 else if a = b then 0 else 1)"

definition sampleUnit :: "string \<Rightarrow> ParseResult" where
  "sampleUnit path =
     \<lparr> parsedAst = ASTNode ''SourceUnit'' 1 0 [], parsedSourceCode = [],
       parsedFilePath = path \<rparr>"

definition sampleRuleA :: Rule where
  "sampleRuleA =
     \<lparr> rule_id = ''a'', rule_description = ''first rule'', rule_severity = Warning,
       rule_apply = (\<lambda>t c. Inr [newIssue ''a'' Warning (filePath c) 7 1 ''late'',
                                 newIssue ''a'' Warning (filePath c) 3 1 ''tie'']) \<rparr>"

definition sampleRuleB :: Rule where
  "sampleRuleB =
     \<lparr> rule_id = ''b'', rule_description = ''second rule'', rule_severity = Error,
       rule_apply = (\<lambda>t c. Inr [newIssue ''b'' Error (filePath c) 3 1 ''tie'']) \<rparr>"

text \<open>
  Two rules that report under the path of a third file, the first on the unit
  \<^verbatim>\<open>B.sol\<close> only and the second on the unit \<^verbatim>\<open>A.sol\<close> only.
\<close>

definition strayRuleA :: Rule where
  "strayRuleA =
     \<lparr> rule_id = ''a'', rule_description = ''first rule'', rule_severity = Warning,
       rule_apply = (\<lambda>t c. if filePath c = ''B.sol''
                             then Inr [newIssue ''a'' Warning ''X.sol'' 1 1 ''stray'']
                             else Inr []) \<rparr>"

definition strayRuleB :: Rule where
  "strayRuleB =
     \<lparr> rule_id = ''b'', rule_description = ''second rule'', rule_severity = Error,
       rule_apply = (\<lambda>t c. if filePath c = ''A.sol''
                             then Inr [newIssue ''b'' Error ''X.sol'' 1 1 ''stray'']
                             else Inr []) \<rparr>"

text \<open>A rule that raises on every unit.\<close>

definition faultyRule :: Rule where
  "faultyRule =
     \<lparr> rule_id = ''faulty'', rule_description = ''always raises'', rule_severity = Info,
       rule_apply = (\<lambda>tree ctx. Inl ''TypeError: node is undefined'') \<rparr>"

section \<open>AI-enhanced rule (rules/ai-enhanced-rule.ts)\<close>

record LLMAnalysisRequest =
  codeSnippet :: string
  ruleDescription :: string
  fileName :: string
  functionName :: string
  contractName :: string
  requestSeverity :: Severity
  analysisType :: string

record LLMAnalysisResponse =
  responseExplanation :: string
  responseSuggestedFix :: "string option"
  responseRiskScore :: "real option"
  additionalContext :: "string option"
  responseConfidence :: real

text \<open>
  What the class takes from outside itself: the LLM client's \<^verbatim>\<open>analyzeCode\<close>, which
  answers or raises; the Solidity parser, which raises or gives the function definitions
  (name, first and last line when the node has a location) and the contract definitions
  (name) in the order \<^verbatim>\<open>parser.visit\<close> meets them; and the host's conversions of a
  number to text.
\<close>

record Host =
  analyzeCode :: "LLMAnalysisRequest \<Rightarrow> string + LLMAnalysisResponse"
  functionDefinitions :: "string \<Rightarrow> string + (string option \<times> (int \<times> int) option) list"
  contractDefinitions :: "string \<Rightarrow> string + string option list"
  numberToString :: "real \<Rightarrow> string"
  toFixed0 :: "real \<Rightarrow> string"

record AIEnhancedRule =
  baseRule :: Rule
  enableAI :: bool

definition aiRuleId :: "AIEnhancedRule \<Rightarrow> string" where
  "aiRuleId r = rule_id (baseRule r) @ ''-ai''"

definition aiRuleDescription :: "AIEnhancedRule \<Rightarrow> string" where
  "aiRuleDescription r = rule_description (baseRule r) @ '' (AI-Enhanced)''"

definition aiRuleSeverity :: "AIEnhancedRule \<Rightarrow> Severity" where
  "aiRuleSeverity r = rule_severity (baseRule r)"

text \<open>
  Issues are objects: \<^verbatim>\<open>apply\<close> writes to the issues it finds in the context, and the
  context map of \<^verbatim>\<open>enhanceIssues\<close> is keyed by the issue object. The heap is the list
  of all issue objects, an object's reference is its index, and an array of issues is a
  list of references. A new object goes to the end of the heap.
\<close>

type_synonym Ref = nat
type_synonym Heap = "Issue list"

definition markIssue :: "AnalysisContext \<Rightarrow> Issue \<Rightarrow> Issue" where
  "markIssue ctx issue = issue\<lparr> needsAIEnhancement := True, aiContext := Some ctx \<rparr>"

fun markAll :: "AnalysisContext \<Rightarrow> Ref list \<Rightarrow> Heap \<Rightarrow> Heap" where
  "markAll ctx [] h = h"
| "markAll ctx (a # rest) h = markAll ctx rest (h[a := markIssue ctx (h ! a)])"

text \<open>
  \<^verbatim>\<open>apply(ast, context)\<close> on the heap and the context's \<^verbatim>\<open>issues\<close> array. The base
  rule runs first; when it raises, so does \<^verbatim>\<open>apply\<close>.
\<close>

definition applyAI ::
  "AIEnhancedRule \<Rightarrow> ASTNode \<Rightarrow> AnalysisContext \<Rightarrow> Heap \<times> Ref list
     \<Rightarrow> string + Heap \<times> Ref list" where
  "applyAI r tree ctx state =
     (case state of (h, sink) \<Rightarrow>
      case rule_apply (baseRule r) tree ctx of
        Inl err \<Rightarrow> Inl err
      | Inr pushed \<Rightarrow>
          (let h1 = h @ pushed;
               sink1 = sink @ [length h ..< length h + length pushed]
           in if \<not> enableAI r then Inr (h1, sink1)
              else
                (let originalIssues =
                       filter (\<lambda>a. ruleId (h1 ! a) = rule_id (baseRule r)) sink1
                 in Inr (markAll ctx originalIssues h1, sink1))))"

text \<open>\<^verbatim>\<open>String.prototype.split\<close> on one character, \<^verbatim>\<open>Array.prototype.slice\<close> and \<^verbatim>\<open>join\<close>.\<close>

fun splitOn :: "char \<Rightarrow> string \<Rightarrow> string list" where
  "splitOn c [] = [[]]"
| "splitOn c (x # xs) =
     (if x = c then [] # splitOn c xs
      else (case splitOn c xs of [] \<Rightarrow> [[x]] | l # ls \<Rightarrow> (x # l) # ls))"

definition jsSlice :: "'a list \<Rightarrow> int \<Rightarrow> int \<Rightarrow> 'a list" where
  "jsSlice xs start fin =
     (let len = int (length xs);
          k = (if start < 0 then max (len + start) 0 else min start len);
          final = (if fin < 0 then max (len + fin) 0 else min fin len)
      in take (nat (final - k)) (drop (nat k) xs))"

fun joinWith :: "string \<Rightarrow> string list \<Rightarrow> string" where
  "joinWith sep [] = []"
| "joinWith sep [x] = x"
| "joinWith sep (x # y # ys) = x @ sep @ joinWith sep (y # ys)"

definition newline :: char where
  "newline = CHR 0x0A"

definition extractCodeSnippet :: "string \<Rightarrow> int \<Rightarrow> int \<Rightarrow> string" where
  "extractCodeSnippet source lineNo contextLines =
     (let lines = splitOn newline source;
          start = max 0 (lineNo - contextLines);
          fin = min (int (length lines)) (lineNo + contextLines)
      in joinWith [newline] (jsSlice lines start fin))"

text \<open>
  \<^verbatim>\<open>extractFunctionName\<close>: the last function definition whose location spans the line;
  a definition without a name counts as the constructor. A parse failure gives
  \<^verbatim>\<open>"unknown"\<close>.
\<close>

fun pickFunction :: "int \<Rightarrow> string \<Rightarrow> (string option \<times> (int \<times> int) option) list \<Rightarrow> string" where
  "pickFunction lineNo found [] = found"
| "pickFunction lineNo found ((name, loc) # rest) =
     pickFunction lineNo
       (case loc of
          None \<Rightarrow> found
        | Some (firstLine, lastLine) \<Rightarrow>
            if firstLine \<le> lineNo \<and> lastLine \<ge> lineNo
            then (case name of None \<Rightarrow> ''constructor''
                  | Some n \<Rightarrow> if n = [] then ''constructor'' else n)
            else found)
       rest"

definition extractFunctionName :: "Host \<Rightarrow> string \<Rightarrow> int \<Rightarrow> string" where
  "extractFunctionName host source lineNo =
     (case functionDefinitions host source of
        Inl err \<Rightarrow> ''unknown''
      | Inr defs \<Rightarrow> pickFunction lineNo ''unknown'' defs)"

fun pickContract :: "string \<Rightarrow> string option list \<Rightarrow> string" where
  "pickContract found [] = found"
| "pickContract found (name # rest) =
     pickContract (case name of None \<Rightarrow> found | Some n \<Rightarrow> if n = [] then found else n) rest"

definition extractContractName :: "Host \<Rightarrow> string \<Rightarrow> string" where
  "extractContractName host source =
     (case contractDefinitions host source of
        Inl err \<Rightarrow> ''unknown''
      | Inr defs \<Rightarrow> pickContract ''unknown'' defs)"

text \<open>
  The emoji of the message headings, as their UTF-8 bytes: robot face, wrench, books,
  warning sign with its variation selector, direct hit, and the cross mark of the
  task's diagnostics.
\<close>

definition crossMark :: string where
  "crossMark = [CHR 0xE2, CHR 0x9D, CHR 0x8C]"

definition robotFace :: string where
  "robotFace = [CHR 0xF0, CHR 0x9F, CHR 0xA4, CHR 0x96]"

definition wrench :: string where
  "wrench = [CHR 0xF0, CHR 0x9F, CHR 0x94, CHR 0xA7]"

definition books :: string where
  "books = [CHR 0xF0, CHR 0x9F, CHR 0x93, CHR 0x9A]"

definition warningSign :: string where
  "warningSign = [CHR 0xE2, CHR 0x9A, CHR 0xA0, CHR 0xEF, CHR 0xB8, CHR 0x8F]"

definition directHit :: string where
  "directHit = [CHR 0xF0, CHR 0x9F, CHR 0x8E, CHR 0xAF]"

text \<open>A string is truthy when it is present and not empty, a number when present and not zero.\<close>

definition truthyString :: "string option \<Rightarrow> bool" where
  "truthyString s = (case s of None \<Rightarrow> False | Some t \<Rightarrow> t \<noteq> [])"

definition formatEnhancedMessage :: "Host \<Rightarrow> string \<Rightarrow> LLMAnalysisResponse \<Rightarrow> string" where
  "formatEnhancedMessage host originalMessage aiResponse =
     originalMessage
     @ [newline, newline] @ robotFace @ '' AI ANALYSIS:'' @ [newline]
     @ responseExplanation aiResponse
     @ (if truthyString (responseSuggestedFix aiResponse)
        then [newline, newline] @ wrench @ '' SUGGESTED FIX:'' @ [newline]
             @ the (responseSuggestedFix aiResponse)
        else [])
     @ (if truthyString (additionalContext aiResponse)
        then [newline, newline] @ books @ '' ADDITIONAL CONTEXT:'' @ [newline]
             @ the (additionalContext aiResponse)
        else [])
     @ (case responseRiskScore aiResponse of
          None \<Rightarrow> []
        | Some score \<Rightarrow>
            if score = 0 then []
            else [newline, newline] @ warningSign @ '' RISK SCORE: ''
                 @ numberToString host score @ ''/10'')
     @ (if responseConfidence aiResponse = 0 then []
        else [newline] @ directHit @ '' CONFIDENCE: ''
             @ toFixed0 host (responseConfidence aiResponse * 100) @ ''%'')"

definition buildRequest ::
  "Host \<Rightarrow> AIEnhancedRule \<Rightarrow> Issue \<Rightarrow> AnalysisContext \<Rightarrow> LLMAnalysisRequest" where
  "buildRequest host r issue ctx =
     \<lparr> codeSnippet = extractCodeSnippet (sourceCode ctx) (line issue) 10,
       ruleDescription = aiRuleDescription r,
       fileName = issue_file issue,
       functionName = extractFunctionName host (sourceCode ctx) (line issue),
       contractName = extractContractName host (sourceCode ctx),
       requestSeverity = severity issue,
       analysisType = ''vulnerability'' \<rparr>"

definition enhancedCopy :: "Host \<Rightarrow> Issue \<Rightarrow> LLMAnalysisResponse \<Rightarrow> Issue" where
  "enhancedCopy host issue aiResponse =
     issue\<lparr> message := formatEnhancedMessage host (message issue) aiResponse,
            aiEnhancement :=
              Some \<lparr> explanation = responseExplanation aiResponse,
                     suggestedFix = responseSuggestedFix aiResponse,
                     riskScore = responseRiskScore aiResponse,
                     confidence = responseConfidence aiResponse \<rparr> \<rparr>"

text \<open>
  \<^verbatim>\<open>enhanceIssueWithAI\<close>: the object literal with the spread is a new object; when
  anything in the \<^verbatim>\<open>try\<close> block raises, the issue passed in is returned.
\<close>

definition enhanceIssueWithAI ::
  "Host \<Rightarrow> AIEnhancedRule \<Rightarrow> Heap \<Rightarrow> Ref \<Rightarrow> AnalysisContext \<Rightarrow> Heap \<times> Ref" where
  "enhanceIssueWithAI host r h a ctx =
     (case analyzeCode host (buildRequest host r (h ! a) ctx) of
        Inl err \<Rightarrow> (h, a)
      | Inr aiResponse \<Rightarrow> (h @ [enhancedCopy host (h ! a) aiResponse], length h))"

text \<open>\<^verbatim>\<open>contexts.get(issue) || (issue as any)._aiContext\<close>\<close>

definition contextFor :: "(Ref \<Rightarrow> AnalysisContext option) \<Rightarrow> Heap \<Rightarrow> Ref \<Rightarrow> AnalysisContext option" where
  "contextFor contexts h a =
     (case contexts a of Some ctx \<Rightarrow> Some ctx | None \<Rightarrow> aiContext (h ! a))"

text \<open>
  \<^verbatim>\<open>enhanceIssues\<close>: the loop pushes one issue per input issue. Its own
  \<^verbatim>\<open>catch\<close> is never entered, since \<^verbatim>\<open>enhanceIssueWithAI\<close> catches everything
  itself.
\<close>

fun enhanceIssues ::
  "Host \<Rightarrow> AIEnhancedRule \<Rightarrow> Heap \<Rightarrow> Ref list \<Rightarrow> (Ref \<Rightarrow> AnalysisContext option)
     \<Rightarrow> Heap \<times> Ref list" where
  "enhanceIssues host r h [] contexts = (h, [])"
| "enhanceIssues host r h (a # rest) contexts =
     (let step =
            (if needsAIEnhancement (h ! a)
             then (case contextFor contexts h a of
                     Some ctx \<Rightarrow> enhanceIssueWithAI host r h a ctx
                   | None \<Rightarrow> (h, a))
             else (h, a));
          later = enhanceIssues host r (fst step) rest contexts
      in (fst later, snd step # snd later))"

text \<open>
  Two issues agree outside the enhancement when they differ at most in the message and
  the enhancement payload.
\<close>

definition sameOutsideEnhancement :: "Issue \<Rightarrow> Issue \<Rightarrow> bool" where
  "sameOutsideEnhancement old new =
     (new = old\<lparr> message := message new, aiEnhancement := aiEnhancement new \<rparr>)"

text \<open>Two issues agree on the declared fields when they differ at most in the two dynamic properties.\<close>

definition sameDeclaredFields :: "Issue \<Rightarrow> Issue \<Rightarrow> bool" where
  "sameDeclaredFields old new =
     (new = old\<lparr> needsAIEnhancement := needsAIEnhancement new, aiContext := aiContext new \<rparr>)"

text \<open>Whether the enhancement of the issue at a reference is attempted and its LLM call raises.\<close>

definition enhancementFails ::
  "Host \<Rightarrow> AIEnhancedRule \<Rightarrow> (Ref \<Rightarrow> AnalysisContext option) \<Rightarrow> Heap \<Rightarrow> Ref \<Rightarrow> bool" where
  "enhancementFails host r contexts h a =
     (needsAIEnhancement (h ! a)
      \<and> (case contextFor contexts h a of
            None \<Rightarrow> False
          | Some ctx \<Rightarrow> isl (analyzeCode host (buildRequest host r (h ! a) ctx))))"

text \<open>What one turn of the loop does to the heap and which reference it pushes.\<close>

definition enhanceStep ::
  "Host \<Rightarrow> AIEnhancedRule \<Rightarrow> Heap \<Rightarrow> Ref \<Rightarrow> (Ref \<Rightarrow> AnalysisContext option) \<Rightarrow> Heap \<times> Ref" where
  "enhanceStep host r h a contexts =
     (if needsAIEnhancement (h ! a)
      then (case contextFor contexts h a of
              Some ctx \<Rightarrow> enhanceIssueWithAI host r h a ctx
            | None \<Rightarrow> (h, a))
      else (h, a))"

text \<open>
  What the loop keeps of the issue at reference \<open>a\<close> of the heap \<open>h\<close> in the issue
  it pushes, at reference \<open>b\<close> of the final heap \<open>h'\<close>.
\<close>

definition keeps ::
  "Host \<Rightarrow> AIEnhancedRule \<Rightarrow> (Ref \<Rightarrow> AnalysisContext option) \<Rightarrow> Heap \<Rightarrow> Heap \<Rightarrow> Ref \<Rightarrow> Ref \<Rightarrow> bool" where
  "keeps host r contexts h h' a b =
     (sameOutsideEnhancement (h ! a) (h' ! b)
      \<and> prefix (message (h ! a)) (message (h' ! b))
      \<and> (enhancementFails host r contexts h a \<longrightarrow> b = a \<and> h' ! b = h ! a))"

text \<open>A host, a context, a wrapped rule and a heap of three issues, two of them marked.\<close>

fun showNat :: "nat \<Rightarrow> string" where
  "showNat n = (if n < 10 then [char_of (48 + n)] else showNat (n div 10) @ [char_of (48 + n mod 10)])"

definition sampleResponse :: LLMAnalysisResponse where
  "sampleResponse =
     \<lparr> responseExplanation = ''the balance is written after the call'',
       responseSuggestedFix = Some ''write the balance before the call'',
       responseRiskScore = Some 8,
       additionalContext = None,
       responseConfidence = 1 \<rparr>"

definition sampleHost :: Host where
  "sampleHost =
     \<lparr> analyzeCode = (\<lambda>request. if fileName request = ''bad.sol''
                                  then Inl ''request failed'' else Inr sampleResponse),
       functionDefinitions = (\<lambda>source. Inr [(Some ''withdraw'', Some (1, 3))]),
       contractDefinitions = (\<lambda>source. Inr [Some ''Vault'']),
       numberToString = (\<lambda>x. showNat (nat \<lfloor>x\<rfloor>)),
       toFixed0 = (\<lambda>x. showNat (nat \<lfloor>x + 1 / 2\<rfloor>)) \<rparr>"

definition sampleContext :: AnalysisContext where
  "sampleContext =
     \<lparr> ast = ASTNode ''SourceUnit'' 1 0 [], sourceCode = ''contract Vault {}'',
       filePath = ''A.sol'' \<rparr>"

definition sampleAIRule :: AIEnhancedRule where
  "sampleAIRule = \<lparr> baseRule = sampleRuleB, enableAI = True \<rparr>"

definition sampleHeap :: Heap where
  "sampleHeap =
     [markIssue sampleContext (newIssue ''b'' Error ''A.sol'' 3 1 ''tie''),
      markIssue sampleContext (newIssue ''b'' Error ''bad.sol'' 3 1 ''tie''),
      newIssue ''a'' Warning ''A.sol'' 7 1 ''late'']"

text \<open>A tree and an issue that an earlier application of the base rule left in the context.\<close>

definition sampleTree :: ASTNode where
  "sampleTree = ASTNode ''SourceUnit'' 1 0 []"

definition earlierIssue :: Issue where
  "earlierIssue = newIssue ''b'' Error ''A.sol'' 9 1 ''earlier''"

text \<open>
  A host whose answer repeats the code snippet it was sent, a second context for the same
  file with another source text, and the finding of the second sample rule as
  \<^verbatim>\<open>apply\<close> leaves it.
\<close>

definition echoHost :: Host where
  "echoHost =
     sampleHost\<lparr> analyzeCode :=
       (\<lambda>request. Inr (sampleResponse\<lparr> responseExplanation := codeSnippet request \<rparr>)) \<rparr>"

definition otherContext :: AnalysisContext where
  "otherContext =
     \<lparr> ast = ASTNode ''SourceUnit'' 1 0 [], sourceCode = ''contract Other {}'',
       filePath = ''A.sol'' \<rparr>"

definition markedTie :: Issue where
  "markedTie = markIssue sampleContext (newIssue ''b'' Error ''A.sol'' 3 1 ''tie'')"

section \<open>Playbook registry (playbooks/registry.ts)\<close>




datatype SourceType = FileSource | StringSource | RemoteSource | BuiltinSource | LighthouseSource























section \<open>The analyze task (tasks/analyze.ts)\<close>

text \<open>The plugin's section of the Hardhat configuration, every field optional.\<close>

record SuperAuditConfig =
  configMode :: "string option"
  configPlaybook :: "string option"
  configRules :: "string list option"
  configFormat :: "string option"
  configOutput :: "string option"
  configAiEnabled :: "bool option"

text \<open>\<^verbatim>\<open>hre.config.paths.sources\<close>: a string, or an object whose \<^verbatim>\<open>sources\<close> may be missing.\<close>

datatype SourcesConfig = SourcesString string | SourcesObject "string option"

text \<open>What \<^verbatim>\<open>parseAllSourceFiles\<close> does: it raises a \<^verbatim>\<open>ParseError\<close>, raises something else, or returns.\<close>

datatype ParseOutcome =
    ParseErrorRaised string
  | OtherErrorRaised string
  | Parsed "ParseResult list"

text \<open>
  The world the task runs in. Each collaborator that is not under \<^verbatim>\<open>src/\<close> is a
  function that returns or raises (\<open>Inl\<close> the message): the initialisation of storage
  and registry at the start of the task, the upload, the registration from storage
  (returning the registered identifier), the two rule loaders, the parser of the source
  files and the file writer (\<open>Some\<close> the message when it raises). The rule tables of
  \<^verbatim>\<open>rules/index.ts\<close> are three lists. The host gives the collation of
  \<^verbatim>\<open>localeCompare\<close>, the message of the \<^verbatim>\<open>TypeError\<close> that \<^verbatim>\<open>JSON.stringify\<close>
  raises on a circular structure, and for the message of an exception its \<^verbatim>\<open>stack\<close>,
  when the exception is an \<^verbatim>\<open>Error\<close> that has one.
\<close>

record World =
  argv :: "string list"
  env :: "string \<Rightarrow> string option"
  config :: SuperAuditConfig
  sourcesConfig :: SourcesConfig
  initialize :: "string option"
  fileExists :: "string \<Rightarrow> bool"
  uploadAndRegister :: "string \<Rightarrow> string + unit"
  registerFromLighthouse :: "string \<Rightarrow> string + string"
  loadRulesFromRegistry :: "string \<Rightarrow> string + Rule list"
  loadPlaybookRules :: "string \<Rightarrow> string + Rule list"
  basicRules :: "Rule list"
  advancedRules :: "Rule list"
  defaultRules :: "Rule list"
  parseAllSourceFiles :: "string \<Rightarrow> ParseOutcome"
  writeFileSync :: "string \<Rightarrow> string option"
  llmHost :: Host
  localeCompare :: Collation
  stringifyError :: string
  stackTrace :: "string \<Rightarrow> string option"

fun getArgValue :: "string list \<Rightarrow> string \<Rightarrow> string option" where
  "getArgValue [] flag = None"
| "getArgValue (a # rest) flag =
     (if a = flag then (case rest of [] \<Rightarrow> None | v # others \<Rightarrow> Some v)
      else getArgValue rest flag)"

definition hasFlag :: "string list \<Rightarrow> string \<Rightarrow> bool" where
  "hasFlag args flag = (flag \<in> set args)"

text \<open>\<^verbatim>\<open>a || b\<close> on optional strings: a missing or empty \<open>a\<close> gives \<open>b\<close>.\<close>

definition orElse :: "string option \<Rightarrow> string option \<Rightarrow> string option" where
  "orElse a b = (if truthyString a then a else b)"

text \<open>The parsed arguments: \<open>argPlaybook\<close> is \<^verbatim>\<open>args.playbook\<close>, and so on.\<close>

record TaskArgs =
  argPlaybook :: "string option"
  argPlaybookCid :: "string option"
  argPlaybookId :: "string option"
  argMode :: "string option"
  argRules :: "string option"
  argFormat :: "string option"
  argOutput :: "string option"
  argShowSamples :: bool
  argListPlaybooks :: bool
  argUploadPlaybook :: "string option"
  argAiEnabled :: bool

definition parseArgs :: "World \<Rightarrow> TaskArgs" where
  "parseArgs w =
     \<lparr> argPlaybook = orElse (getArgValue (argv w) ''--playbook'') (configPlaybook (config w)),
       argPlaybookCid = getArgValue (argv w) ''--playbook-cid'',
       argPlaybookId = getArgValue (argv w) ''--playbook-id'',
       argMode = orElse (getArgValue (argv w) ''--mode'') (configMode (config w)),
       argRules = orElse (getArgValue (argv w) ''--rules'')
                 (case configRules (config w) of
                    None \<Rightarrow> None
                  | Some ids \<Rightarrow> Some (joinWith '','' ids)),
       argFormat = orElse (getArgValue (argv w) ''--format'') (configFormat (config w)),
       argOutput = orElse (getArgValue (argv w) ''--output'') (configOutput (config w)),
       argShowSamples = hasFlag (argv w) ''--show-samples'',
       argListPlaybooks = hasFlag (argv w) ''--list-playbooks'',
       argUploadPlaybook = getArgValue (argv w) ''--upload-playbook'',
       argAiEnabled = (hasFlag (argv w) ''--ai'' \<or> configAiEnabled (config w) = Some True
                    \<or> env w ''SUPERAUDIT_AI_ENABLED'' = Some ''true'') \<rparr>"

text \<open>\<^verbatim>\<open>String.prototype.trim\<close> on the white space below code 256.\<close>

definition isSpace :: "char \<Rightarrow> bool" where
  "isSpace c = (c \<in> set [CHR '' '', CHR 0x09, CHR 0x0A, CHR 0x0B, CHR 0x0C, CHR 0x0D, CHR 0xA0])"

definition trim :: "string \<Rightarrow> string" where
  "trim s = rev (dropWhile isSpace (rev (dropWhile isSpace s)))"

text \<open>
  \<^verbatim>\<open>determineAnalysisRules\<close>: the rules and the name of the analysis mode, or the
  exception raised.
\<close>

definition determineAnalysisRules :: "World \<Rightarrow> TaskArgs \<Rightarrow> string + Rule list \<times> string" where
  "determineAnalysisRules w args =
     (if truthyString (argPlaybookCid args) then
        (case registerFromLighthouse w (the (argPlaybookCid args)) of
           Inl err \<Rightarrow> Inl err
         | Inr registeredId \<Rightarrow>
             (case loadRulesFromRegistry w registeredId of
                Inl err \<Rightarrow> Inl err
              | Inr playbookRules \<Rightarrow> Inr (basicRules w @ playbookRules, ''community-playbook'')))
      else if truthyString (argPlaybookId args) then
        (case loadRulesFromRegistry w (the (argPlaybookId args)) of
           Inl err \<Rightarrow> Inl err
         | Inr playbookRules \<Rightarrow> Inr (basicRules w @ playbookRules, ''registry''))
      else if truthyString (argPlaybook args) then
        (if \<not> fileExists w (the (argPlaybook args))
         then Inl (''Playbook file not found: '' @ the (argPlaybook args))
         else (case loadPlaybookRules w (the (argPlaybook args)) of
                 Inl err \<Rightarrow> Inl err
               | Inr playbookRules \<Rightarrow> Inr (basicRules w @ playbookRules, ''playbook'')))
      else if truthyString (argRules args) then
        (let requestedRuleIds = map trim (splitOn CHR '','' (the (argRules args)));
             allRules = basicRules w @ advancedRules w;
             filteredRules = filter (\<lambda>rule. rule_id rule \<in> set requestedRuleIds) allRules
         in if length filteredRules = 0
            then Inl (''No rules found matching: '' @ the (argRules args))
            else Inr (filteredRules, ''custom''))
      else if argMode args = Some ''basic'' then Inr (basicRules w, ''basic'')
      else if argMode args = Some ''advanced'' then Inr (basicRules w @ advancedRules w, ''advanced'')
      else Inr (defaultRules w, ''full''))"

text \<open>\<^verbatim>\<open>getAIConfig().apiKey\<close>\<close>

definition aiApiKey :: "World \<Rightarrow> string option" where
  "aiApiKey w =
     (let provider = the (orElse (env w ''SUPERAUDIT_AI_PROVIDER'') (Some ''openai''))
      in if provider = ''openai'' then env w ''OPENAI_API_KEY''
         else if provider = ''anthropic'' then env w ''ANTHROPIC_API_KEY''
         else None)"

definition contractsPath :: "World \<Rightarrow> string" where
  "contractsPath w =
     (case sourcesConfig w of
        SourcesString p \<Rightarrow> p
      | SourcesObject p \<Rightarrow> the (orElse p (Some ''./contracts'')))"

text \<open>
  A wrapped rule as the engine runs it: \<^verbatim>\<open>apply\<close> on a context with an empty issues
  array, read back as the issues pushed.
\<close>

definition wrappedRule :: "AIEnhancedRule \<Rightarrow> Rule" where
  "wrappedRule r =
     \<lparr> rule_id = aiRuleId r,
       rule_description = aiRuleDescription r,
       rule_severity = aiRuleSeverity r,
       rule_apply = (\<lambda>tree ctx.
          case applyAI r tree ctx ([], []) of
            Inl err \<Rightarrow> Inl err
          | Inr (h, sink) \<Rightarrow> Inr (map (\<lambda>a. h ! a) sink)) \<rparr>"

text \<open>
  The context map of the task: every issue whose file is the path of a parse result is
  mapped to that result's context, a later result replacing an earlier one.
\<close>

definition contextMap :: "ParseResult list \<Rightarrow> Heap \<Rightarrow> Ref \<Rightarrow> AnalysisContext option" where
  "contextMap parseResults h a =
     (if a < length h
      then (case filter (\<lambda>u. parsedFilePath u = issue_file (h ! a)) parseResults of
              [] \<Rightarrow> None
            | u # us \<Rightarrow> Some (contextOf (last (u # us))))
      else None)"

fun enhanceWithAll ::
  "Host \<Rightarrow> AIEnhancedRule list \<Rightarrow> (Ref \<Rightarrow> AnalysisContext option) \<Rightarrow> Heap \<times> Ref list
     \<Rightarrow> Heap \<times> Ref list" where
  "enhanceWithAll host [] contexts state = state"
| "enhanceWithAll host (aiRule # others) contexts state =
     enhanceWithAll host others contexts (enhanceIssues host aiRule (fst state) (snd state) contexts)"

text \<open>What a run hands to its reader, and how the process ends.\<close>

datatype Output =
    ConsoleOutput "ReportLine list"
  | JsonOutput ReportSummary "Issue list"
  | SarifOutput SarifLog

datatype RunEnd = Returned | Exited nat

record RunResult =
  ending :: RunEnd
  diagnostics :: "string list"
  produced :: "Output option"
  savedTo :: "string option"

definition withSuffix :: "string \<Rightarrow> string \<Rightarrow> string" where
  "withSuffix ext f = (if suffix ext f then f else f @ ext)"

text \<open>
  The three writers. Each gives the output and the path written, or the exception
  raised. The console writer prints the report, which sorts the reporter's issues. The
  SARIF writer builds new objects from the declared fields. The JSON writer hands the
  issue objects themselves to \<^verbatim>\<open>JSON.stringify\<close>, which raises on a circular
  structure: \<^verbatim>\<open>_aiContext\<close> is written by \<^verbatim>\<open>AIEnhancedRule.apply\<close> only, which sets
  it to the context whose \<^verbatim>\<open>issues\<close> array holds that very issue, and the copies of
  \<^verbatim>\<open>enhanceIssueWithAI\<close> keep the property; so an issue lies on a cycle exactly when
  it has an \<^verbatim>\<open>_aiContext\<close>.
\<close>

definition circular :: "Issue \<Rightarrow> bool" where
  "circular issue = (aiContext issue \<noteq> None)"

definition writeOutput :: "World \<Rightarrow> Output \<Rightarrow> string \<Rightarrow> string option \<Rightarrow> string + Output \<times> string option" where
  "writeOutput w out ext outputFile =
     (if truthyString outputFile
      then (case writeFileSync w (withSuffix ext (the outputFile)) of
              Some err \<Rightarrow> Inl err
            | None \<Rightarrow> Inr (out, Some (withSuffix ext (the outputFile))))
      else Inr (out, None))"

definition outputJSON :: "World \<Rightarrow> ReportSummary \<Rightarrow> Issue list \<Rightarrow> string option \<Rightarrow> string + Output \<times> string option" where
  "outputJSON w summary issueList outputFile =
     (if list_ex circular issueList then Inl (stringifyError w)
      else writeOutput w (JsonOutput summary issueList) ''.json'' outputFile)"

definition outputConsole :: "World \<Rightarrow> Reporter \<Rightarrow> string option \<Rightarrow> string + Output \<times> string option" where
  "outputConsole w reporter outputFile =
     writeOutput w (ConsoleOutput (fst (printReport (localeCompare w) reporter))) ''.txt''
       outputFile"

definition outputSARIFFile :: "World \<Rightarrow> Issue list \<Rightarrow> string \<Rightarrow> string option \<Rightarrow> string + Output \<times> string option" where
  "outputSARIFFile w issueList sourceFile outputFile =
     writeOutput w (SarifOutput (fst (outputSARIF issueList sourceFile outputFile))) ''.sarif''
       outputFile"

text \<open>
  The enhancement stage of the task: with AI enabled, a client at hand and at least one
  wrapped rule, the findings are enhanced by every wrapped rule in turn.
\<close>

definition enhanceAll ::
  "World \<Rightarrow> TaskArgs \<Rightarrow> AIEnhancedRule list \<Rightarrow> ParseResult list \<Rightarrow> Issue list \<Rightarrow> Issue list" where
  "enhanceAll w args aiEnhancedRules parseResults found =
     (if argAiEnabled args \<and> truthyString (aiApiKey w) \<and> length aiEnhancedRules > 0
      then (let final = enhanceWithAll (llmHost w) aiEnhancedRules
                          (contextMap parseResults found) (found, [0 ..< length found])
            in map (\<lambda>a. fst final ! a) (snd final))
      else found)"

text \<open>The output stage: the \<^verbatim>\<open>switch\<close> on the format.\<close>

definition writeResults ::
  "World \<Rightarrow> TaskArgs \<Rightarrow> Reporter \<Rightarrow> Issue list \<Rightarrow> ParseResult list
     \<Rightarrow> string + Output \<times> string option" where
  "writeResults w args reporter allIssues parseResults =
     (if argFormat args = Some ''json''
      then outputJSON w (getSummary reporter) allIssues (argOutput args)
      else if argFormat args = Some ''sarif''
      then outputSARIFFile w allIssues
             (case parseResults of [] \<Rightarrow> [] | u # us \<Rightarrow> parsedFilePath u) (argOutput args)
      else outputConsole w reporter (argOutput args))"

text \<open>
  The analysis of the parsed files: the engine runs the active rules and reports the
  findings to the reporter; after the enhancement stage the reporter holds the enhanced
  findings; the result is written in the requested format; the process exits with code 1
  when a finding has severity error.
\<close>

definition runAnalysis ::
  "World \<Rightarrow> TaskArgs \<Rightarrow> Rule list \<Rightarrow> AIEnhancedRule list \<Rightarrow> ParseResult list
     \<Rightarrow> string + RunResult" where
  "runAnalysis w args activeRules aiEnhancedRules parseResults =
     (let found = findings (analyzeMultiple activeRules parseResults);
          allIssues = enhanceAll w args aiEnhancedRules parseResults found;
          reporter = addIssues allIssues newReporter
      in case writeResults w args reporter allIssues parseResults of
           Inl err \<Rightarrow> Inl err
         | Inr (out, path) \<Rightarrow>
             Inr \<lparr> ending = (if hasErrors reporter then Exited 1 else Returned),
                   diagnostics = [], produced = Some out, savedTo = path \<rparr>)"

text \<open>
  With AI enabled and an API key at hand every selected rule is wrapped, and the wrapped
  rules are the active rules; otherwise no rule is wrapped.
\<close>

definition aiRulesFor :: "World \<Rightarrow> TaskArgs \<Rightarrow> Rule list \<Rightarrow> AIEnhancedRule list" where
  "aiRulesFor w args selected =
     (if argAiEnabled args \<and> truthyString (aiApiKey w)
      then map (\<lambda>rule. \<lparr> baseRule = rule, enableAI = True \<rparr>) selected
      else [])"

definition activeRulesFor :: "World \<Rightarrow> TaskArgs \<Rightarrow> Rule list \<Rightarrow> Rule list" where
  "activeRulesFor w args selected =
     (if argAiEnabled args \<and> truthyString (aiApiKey w)
      then map wrappedRule (aiRulesFor w args selected)
      else selected)"

definition finished :: RunResult where
  "finished = \<lparr> ending = Returned, diagnostics = [], produced = None, savedTo = None \<rparr>"

definition aborted :: "string \<Rightarrow> RunResult" where
  "aborted diagnostic =
     \<lparr> ending = Exited 1, diagnostics = [diagnostic], produced = None, savedTo = None \<rparr>"

text \<open>
  The outer \<^verbatim>\<open>catch\<close>: the message of the exception, then, for an \<^verbatim>\<open>Error\<close> with a
  stack that is not empty, the heading of the stack trace and the stack; exit code 1.
\<close>

definition failed :: "World \<Rightarrow> string \<Rightarrow> RunResult" where
  "failed w err =
     \<lparr> ending = Exited 1,
       diagnostics =
         (crossMark @ '' Analysis failed: '' @ err)
         # (if truthyString (stackTrace w err)
            then [newline # ''Stack trace:'', the (stackTrace w err)] else []),
       produced = None, savedTo = None \<rparr>"

text \<open>
  The body of the task's \<^verbatim>\<open>try\<close> block: \<open>Inl\<close> is an exception on its way to the
  outer \<^verbatim>\<open>catch\<close>, \<open>Inr\<close> the result of a return or of \<^verbatim>\<open>process.exit\<close>.
\<close>

definition taskBody :: "World \<Rightarrow> string + RunResult" where
  "taskBody w =
     (case initialize w of
        Some err \<Rightarrow> Inl err
      | None \<Rightarrow>
          (let args = parseArgs w in
           if argShowSamples args then Inr finished
           else if argListPlaybooks args then Inr finished
           else if truthyString (argUploadPlaybook args) then
             (if \<not> fileExists w (the (argUploadPlaybook args))
              then Inl (''Playbook file not found: '' @ the (argUploadPlaybook args))
              else (case uploadAndRegister w (the (argUploadPlaybook args)) of
                      Inl err \<Rightarrow> Inl err
                    | Inr done \<Rightarrow> Inr finished))
           else
             (case determineAnalysisRules w args of
                Inl err \<Rightarrow> Inl err
              | Inr (selected, analysisMode) \<Rightarrow>
                  (let aiEnhancedRules = aiRulesFor w args selected;
                       activeRules = activeRulesFor w args selected
                   in case parseAllSourceFiles w (contractsPath w) of
                        ParseErrorRaised msg \<Rightarrow>
                          Inr (aborted (crossMark @ '' Parse error: '' @ msg))
                      | OtherErrorRaised msg \<Rightarrow>
                          Inr (aborted (crossMark @ '' Failed to parse source files: '' @ msg))
                      | Parsed parseResults \<Rightarrow>
                          if length parseResults = 0 then Inr finished
                          else runAnalysis w args activeRules aiEnhancedRules parseResults))))"

definition analyzeTask :: "World \<Rightarrow> RunResult" where
  "analyzeTask w =
     (case taskBody w of
        Inl err \<Rightarrow> failed w err
      | Inr result \<Rightarrow> result)"

text \<open>The number of findings an output holds.\<close>

fun outputCount :: "Output \<Rightarrow> nat" where
  "outputCount (ConsoleOutput ls) = length (reportedIssues ls)"
| "outputCount (JsonOutput summary issueList) = length issueList"
| "outputCount (SarifOutput sarif) = length (results sarif)"

text \<open>
  A world reaches the parser with the selected rules when the task neither raises nor
  returns before it calls \<^verbatim>\<open>parseAllSourceFiles\<close>, and \<^verbatim>\<open>determineAnalysisRules\<close>
  has returned those rules.
\<close>

definition reachesParser :: "World \<Rightarrow> Rule list \<Rightarrow> bool" where
  "reachesParser w selected =
     (initialize w = None \<and> \<not> argShowSamples (parseArgs w)
      \<and> \<not> argListPlaybooks (parseArgs w)
      \<and> \<not> truthyString (argUploadPlaybook (parseArgs w))
      \<and> (case determineAnalysisRules w (parseArgs w) of
            Inl err \<Rightarrow> False
          | Inr (chosen, analysisMode) \<Rightarrow> chosen = selected))"

text \<open>
  A world in which the task runs the default rules on one parsed file and prints JSON,
  and three variants: the parser raises a \<^verbatim>\<open>ParseError\<close>, the parser raises another
  error, and the rules asked for on the command line do not exist.
\<close>

definition sampleWorld :: World where
  "sampleWorld =
     \<lparr> argv = [''node'', ''hardhat'', ''superaudit'', ''--format'', ''json''],
       env = (\<lambda>name. None),
       config = \<lparr> configMode = None, configPlaybook = None, configRules = None,
                  configFormat = None, configOutput = None, configAiEnabled = None \<rparr>,
       sourcesConfig = SourcesString ''./contracts'',
       initialize = None,
       fileExists = (\<lambda>p. False),
       uploadAndRegister = (\<lambda>p. Inl ''Lighthouse not initialized''),
       registerFromLighthouse = (\<lambda>c. Inl ''Lighthouse not initialized''),
       loadRulesFromRegistry = (\<lambda>i. Inl ''Playbook not found''),
       loadPlaybookRules = (\<lambda>p. Inl ''Playbook not found''),
       basicRules = [sampleRuleA],
       advancedRules = [sampleRuleB],
       defaultRules = [sampleRuleA, sampleRuleB],
       parseAllSourceFiles = (\<lambda>p. Parsed [sampleUnit ''A.sol'']),
       writeFileSync = (\<lambda>p. None),
       llmHost = sampleHost,
       localeCompare = codeUnitOrder,
       stringifyError = ''Converting circular structure to JSON'',
       stackTrace = (\<lambda>msg. Some (''Error: '' @ msg)) \<rparr>"

definition parseErrorWorld :: World where
  "parseErrorWorld =
     sampleWorld\<lparr> parseAllSourceFiles := (\<lambda>p. ParseErrorRaised ''A.sol:3:1 unexpected token'') \<rparr>"

definition ioErrorWorld :: World where
  "ioErrorWorld =
     sampleWorld\<lparr> parseAllSourceFiles := (\<lambda>p. OtherErrorRaised ''EACCES: permission denied'') \<rparr>"

definition noRuleWorld :: World where
  "noRuleWorld =
     sampleWorld\<lparr> argv := [''node'', ''hardhat'', ''superaudit'', ''--rules'', ''zzz''] \<rparr>"

text \<open>The sample world with AI enabled on the command line and an API key in the environment.\<close>

definition aiJsonWorld :: World where
  "aiJsonWorld =
     sampleWorld\<lparr> argv := [''node'', ''hardhat'', ''superaudit'', ''--format'', ''json'', ''--ai''],
                  env := (\<lambda>name. if name = ''OPENAI_API_KEY'' then Some ''sk-test'' else None) \<rparr>"

section \<open>Playbook compiler\<close>

text \<open>
  Modelled from the spec: the playbook schema and the rule compiler (the parser and the
  DSL interpreter of \<^verbatim>\<open>playbooks/\<close> are not among the sources). Sections 3 and 4.5: a
  static check has an identifier, a severity, target node kinds, a set of structural
  predicates given by name, and a message template. The compiler knows a closed,
  enumerable vocabulary: a finite table from predicate names to the predicates it
  implements. A check all of whose predicate names are in the table compiles to a rule
  that reports every node of a target kind on which all its predicates hold; a check
  with a name outside the table is a compile error for that check and gives no rule.
  The table itself is a parameter, since the spec leaves the vocabulary open.
\<close>

record StaticCheckSpec =
  checkId :: string
  checkSeverity :: Severity
  checkTargets :: "string list"
  checkPredicates :: "string list"
  messageTemplate :: string

record CompileError =
  errorCheck :: string
  unknownPredicate :: string

type_synonym Vocabulary = "(string \<times> (ASTNode \<Rightarrow> bool)) list"

text \<open>The nodes of a tree, parent before children, children in source order.\<close>

fun nodesOf :: "ASTNode \<Rightarrow> ASTNode list" where
  "nodesOf (ASTNode k l c children) = ASTNode k l c children # concat (map nodesOf children)"

fun nodeKind :: "ASTNode \<Rightarrow> string" where
  "nodeKind (ASTNode k l c children) = k"

fun nodeLine :: "ASTNode \<Rightarrow> int" where
  "nodeLine (ASTNode k l c children) = l"

fun nodeColumn :: "ASTNode \<Rightarrow> int" where
  "nodeColumn (ASTNode k l c children) = c"

definition unknownNames :: "Vocabulary \<Rightarrow> StaticCheckSpec \<Rightarrow> string list" where
  "unknownNames vocabulary check =
     filter (\<lambda>name. map_of vocabulary name = None) (checkPredicates check)"

definition compiledApply ::
  "Vocabulary \<Rightarrow> StaticCheckSpec \<Rightarrow> ASTNode \<Rightarrow> AnalysisContext \<Rightarrow> string + Issue list" where
  "compiledApply vocabulary check tree ctx =
     Inr (map (\<lambda>node. newIssue (checkId check) (checkSeverity check) (filePath ctx)
                         (nodeLine node) (nodeColumn node) (messageTemplate check))
            (filter (\<lambda>node. nodeKind node \<in> set (checkTargets check)
                       \<and> list_all (\<lambda>name. case map_of vocabulary name of
                                      None \<Rightarrow> False | Some holds \<Rightarrow> holds node)
                             (checkPredicates check))
               (nodesOf tree)))"

definition compileCheck :: "Vocabulary \<Rightarrow> StaticCheckSpec \<Rightarrow> CompileError + Rule" where
  "compileCheck vocabulary check =
     (case unknownNames vocabulary check of
        name # others \<Rightarrow> Inl \<lparr> errorCheck = checkId check, unknownPredicate = name \<rparr>
      | [] \<Rightarrow>
          Inr \<lparr> rule_id = checkId check,
                rule_description = messageTemplate check,
                rule_severity = checkSeverity check,
                rule_apply = compiledApply vocabulary check \<rparr>)"

fun compile :: "Vocabulary \<Rightarrow> StaticCheckSpec list \<Rightarrow> Rule list \<times> CompileError list" where
  "compile vocabulary [] = ([], [])"
| "compile vocabulary (check # checks) =
     (case compileCheck vocabulary check of
        Inl err \<Rightarrow> (fst (compile vocabulary checks), err # snd (compile vocabulary checks))
      | Inr rule \<Rightarrow> (rule # fst (compile vocabulary checks), snd (compile vocabulary checks)))"

text \<open>A vocabulary of two predicates and two checks, the second naming a predicate outside it.\<close>

definition sampleVocabulary :: Vocabulary where
  "sampleVocabulary =
     [(''uses-tx-origin'', (\<lambda>node. nodeKind node = ''TxOrigin'')),
      (''external-call-with-value'', (\<lambda>node. nodeKind node = ''CallWithValue''))]"

definition knownCheck :: StaticCheckSpec where
  "knownCheck =
     \<lparr> checkId = ''no-tx-origin'', checkSeverity = Error, checkTargets = [''TxOrigin''],
       checkPredicates = [''uses-tx-origin''], messageTemplate = ''tx.origin used'' \<rparr>"

definition unknownCheck :: StaticCheckSpec where
  "unknownCheck =
     \<lparr> checkId = ''custom'', checkSeverity = Warning, checkTargets = [''FunctionCall''],
       checkPredicates = [''uses-tx-origin'', ''eval(process.exit())''],
       messageTemplate = ''custom check'' \<rparr>"

section \<open>Control-flow graph and the reentrancy rule\<close>

text \<open>
  Modelled from the spec: the control-flow graph builder and the built-in reentrancy
  rule (\<^verbatim>\<open>rules/\<close> is not among the sources). Sections 3, 4.2 and 4.3. A statement
  is known by its kind and location; only the kinds that matter to the rule are told
  apart: an external call, a write to a sensitive state variable, a reentrancy guard,
  anything else. The builder is given for the bodies without branches: one pass with a
  current block, which an external call ends, as does a guard, being a guard statement;
  each block has a normal edge to the next. The rule searches forward from the
  successors of each block that holds an external call for a block that writes a
  sensitive variable, on a path whose blocks in between hold no guard, and reports the
  call, with severity error, when there is one.
\<close>

datatype StmtKind = ExternalCall | SensitiveWrite | GuardToggle | OtherStmt


datatype EdgeLabel = NormalEdge | TrueBranch | FalseBranch | ExceptionEdge | LoopBack


















section \<open>Summary counters\<close>

lemma foldl_countIssue_total:
  "totalIssues (foldl countIssue s xs) = totalIssues s"
  by (induction xs arbitrary: s) (auto split: Severity.splits)

lemma foldl_countIssue_error:
  "errorCount (foldl countIssue s xs) = errorCount s + countSeverity Error xs"
  by (induction xs arbitrary: s) (auto simp: countSeverity_def split: Severity.splits)

lemma foldl_countIssue_warning:
  "warningCount (foldl countIssue s xs) = warningCount s + countSeverity Warning xs"
  by (induction xs arbitrary: s) (auto simp: countSeverity_def split: Severity.splits)

lemma foldl_countIssue_info:
  "infoCount (foldl countIssue s xs) = infoCount s + countSeverity Info xs"
  by (induction xs arbitrary: s) (auto simp: countSeverity_def split: Severity.splits)

lemma countSeverity_partition:
  "countSeverity Error xs + countSeverity Warning xs + countSeverity Info xs = length xs"
proof (induction xs)
  case Nil
  show ?case by (simp add: countSeverity_def)
next
  case (Cons x xs)
  then show ?case by (cases "severity x") (simp_all add: countSeverity_def)
qed

text \<open>
  Claim C8. In every reporter state reached from the empty reporter by any sequence of
  \<^verbatim>\<open>addIssue\<close>, \<^verbatim>\<open>addIssues\<close> and \<^verbatim>\<open>clear\<close>, the summary's total is
  the sum of its three counters, and each counter is the number of stored issues of its
  severity.
\<close>

theorem getSummary_counts:
  "totalIssues (getSummary (runOps ops))
     = errorCount (getSummary (runOps ops)) + warningCount (getSummary (runOps ops))
       + infoCount (getSummary (runOps ops))
   \<and> errorCount (getSummary (runOps ops)) = countSeverity Error (getIssues (runOps ops))
   \<and> warningCount (getSummary (runOps ops)) = countSeverity Warning (getIssues (runOps ops))
   \<and> infoCount (getSummary (runOps ops)) = countSeverity Info (getIssues (runOps ops))
   \<and> totalIssues (getSummary (runOps ops)) = length (getIssues (runOps ops))"
  by (simp add: getSummary_def getIssues_def foldl_countIssue_total foldl_countIssue_error
      foldl_countIssue_warning foldl_countIssue_info countSeverity_partition)

section \<open>SARIF results\<close>

text \<open>
  Claim C9. The SARIF log holds one result per issue, in the order of the issues; a
  result's level is \<^verbatim>\<open>"error"\<close> for the severity error and \<^verbatim>\<open>"warning"\<close> for
  both warning and info, never \<^verbatim>\<open>"note"\<close> or \<^verbatim>\<open>"info"\<close>; its one location is
  the issue's file, line and column.
\<close>

theorem outputSARIF_results:
  "length (results (fst (outputSARIF issueList sourceFile outputFile))) = length issueList
   \<and> map level (results (fst (outputSARIF issueList sourceFile outputFile)))
       = map (\<lambda>issue. case severity issue of
                 Error \<Rightarrow> ''error'' | Warning \<Rightarrow> ''warning'' | Info \<Rightarrow> ''warning'') issueList
   \<and> map locations (results (fst (outputSARIF issueList sourceFile outputFile)))
       = map (\<lambda>issue. [\<lparr> artifactUri = issue_file issue, startLine = line issue,
                          startColumn = column issue \<rparr>]) issueList
   \<and> map sarifRuleId (results (fst (outputSARIF issueList sourceFile outputFile)))
       = map ruleId issueList
   \<and> ''note'' \<notin> set (map level (results (fst (outputSARIF issueList sourceFile outputFile))))
   \<and> ''info'' \<notin> set (map level (results (fst (outputSARIF issueList sourceFile outputFile))))"
  by (auto simp: outputSARIF_def sarifLog_def toSarifResult_def split: Severity.splits)

section \<open>Order of the report\<close>

lemma length_insertBy: "length (insertBy cmp x ys) = Suc (length ys)"
  by (induction ys) simp_all

lemma length_arraySort: "length (arraySort cmp xs) = length xs"
  by (induction xs) (simp_all add: arraySort_def length_insertBy)



















lemma reportedIssues_append: "reportedIssues (a @ b) = reportedIssues a @ reportedIssues b"
  by (induction a rule: reportedIssues.induct) simp_all

lemma reportedIssues_printIssues: "reportedIssues (printIssues cf xs) = xs"
  by (induction cf xs rule: printIssues.induct) (simp_all add: reportedIssues_append)

lemma reportedIssues_printSummary: "reportedIssues (printSummary s) = []"
  by (simp add: printSummary_def)

lemma reportedIssues_printReport:
  "reportedIssues (fst (printReport collate r)) = arraySort (compareIssues collate) (issues r)"
  by (simp add: printReport_def Let_def reportedIssues_append reportedIssues_printIssues
      reportedIssues_printSummary arraySort_def)


lemma length_ruleIndicesFrom:
  "length (ruleIndicesFrom k rules u) = length (findings (applyRules rules u))"
  by (induction rules arbitrary: k) (auto simp: Let_def split: sum.splits)

lemma length_ruleIndices:
  "length (ruleIndices rules us) = length (findings (analyzeMultiple rules us))"
  by (induction us) (simp_all add: Let_def length_ruleIndicesFrom)






lemma map_snd_taggedFindings:
  "map snd (taggedFindings rules us) = findings (analyzeMultiple rules us)"
  by (simp add: taggedFindings_def length_ruleIndices)













text \<open>
  Without the condition on the rules the later registered rule can come first: of two
  rules that report under the path of a third file, the second on the first unit and
  the first on the second unit, the report lists the second rule's finding first.
\<close>

lemma stray_rules_order:
  "reportedIssues (fst (printReport codeUnitOrder (addIssues
      (findings (analyzeMultiple [strayRuleA, strayRuleB] [sampleUnit ''A.sol'', sampleUnit ''B.sol'']))
      newReporter)))
   = [newIssue ''b'' Error ''X.sol'' 1 1 ''stray'', newIssue ''a'' Warning ''X.sol'' 1 1 ''stray'']"
  by (simp add: reportedIssues_printReport addIssues_def newReporter_def strayRuleA_def
      strayRuleB_def sampleUnit_def contextOf_def Let_def arraySort_def compareIssues_def
      newIssue_def)

section \<open>Enhancement keeps the findings\<close>

lemma prefix_formatEnhancedMessage:
  "prefix msg (formatEnhancedMessage host msg resp)"
  unfolding formatEnhancedMessage_def by (rule prefixI) simp

lemma sameOutsideEnhancement_refl: "sameOutsideEnhancement i i"
  by (simp add: sameOutsideEnhancement_def)

lemma sameOutsideEnhancement_copy: "sameOutsideEnhancement i (enhancedCopy host i resp)"
  by (simp add: sameOutsideEnhancement_def enhancedCopy_def)

lemma enhanceIssues_Cons:
  "enhanceIssues host r h (a # rest) contexts =
     (fst (enhanceIssues host r (fst (enhanceStep host r h a contexts)) rest contexts),
      snd (enhanceStep host r h a contexts)
      # snd (enhanceIssues host r (fst (enhanceStep host r h a contexts)) rest contexts))"
  by (simp add: enhanceStep_def Let_def)

lemma enhanceStep_cases:
  "(enhanceStep host r h a contexts = (h, a))
   \<or> (\<exists>ctx resp. contextFor contexts h a = Some ctx \<and> needsAIEnhancement (h ! a)
        \<and> analyzeCode host (buildRequest host r (h ! a) ctx) = Inr resp
        \<and> enhanceStep host r h a contexts = (h @ [enhancedCopy host (h ! a) resp], length h))"
  by (auto simp: enhanceStep_def enhanceIssueWithAI_def split: option.splits sum.splits)

lemma enhanceStep_fails:
  "enhancementFails host r contexts h a \<Longrightarrow> enhanceStep host r h a contexts = (h, a)"
  by (auto simp: enhanceStep_def enhancementFails_def enhanceIssueWithAI_def isl_def
      split: option.splits sum.splits)

lemma enhanceIssues_grows:
  "\<exists>ext. fst (enhanceIssues host r h refs contexts) = h @ ext"
proof (induction refs arbitrary: h)
  case Nil
  show ?case by simp
next
  case (Cons a rest)
  obtain e1 where e1: "fst (enhanceStep host r h a contexts) = h @ e1"
    using enhanceStep_cases[of host r h a contexts] by auto
  obtain e2 where "fst (enhanceIssues host r (h @ e1) rest contexts) = (h @ e1) @ e2"
    using Cons.IH by blast
  then show ?case by (simp del: enhanceIssues.simps add: enhanceIssues_Cons e1)
qed

lemma enhancementFails_cong:
  "h1 ! a = h ! a \<Longrightarrow> enhancementFails host r contexts h1 a = enhancementFails host r contexts h a"
  by (auto simp: enhancementFails_def contextFor_def split: option.splits)

lemma enhanceIssues_keeps:
  assumes "\<forall>a\<in>set refs. a < length h"
  shows "list_all2 (keeps host r contexts h (fst (enhanceIssues host r h refs contexts)))
           refs (snd (enhanceIssues host r h refs contexts))"
  using assms
proof (induction refs arbitrary: h)
  case Nil
  show ?case by simp
next
  case (Cons a rest)
  let ?step = "enhanceStep host r h a contexts"
  let ?h1 = "fst ?step"
  let ?later = "enhanceIssues host r ?h1 rest contexts"
  let ?h2 = "fst ?later"
  obtain e1 where e1: "?h1 = h @ e1"
    using enhanceStep_cases[of host r h a contexts] by auto
  obtain e2 where e2: "?h2 = (h @ e1) @ e2"
    using enhanceIssues_grows[of host r "h @ e1" rest contexts] e1 by auto
  have a_lt: "a < length h" and rest_lt: "\<forall>x\<in>set rest. x < length h"
    using Cons.prems by simp_all
  have old: "\<And>x. x < length h \<Longrightarrow> ?h1 ! x = h ! x \<and> ?h2 ! x = h ! x"
    using e1 e2 by (simp add: nth_append)
  have "\<forall>x\<in>set rest. x < length ?h1" using rest_lt by (auto simp: e1)
  then have IH: "list_all2 (keeps host r contexts ?h1 ?h2) rest (snd ?later)"
    by (rule Cons.IH)
  have tail: "list_all2 (keeps host r contexts h ?h2) rest (snd ?later)"
    using IH
  proof (rule list.rel_mono_strong)
    fix x y assume "x \<in> set rest" and k: "keeps host r contexts ?h1 ?h2 x y"
    then have "?h1 ! x = h ! x" using rest_lt old by simp
    then show "keeps host r contexts h ?h2 x y"
      using k enhancementFails_cong[of ?h1 x h host r contexts] by (auto simp: keeps_def)
  qed
  have head: "keeps host r contexts h ?h2 a (snd ?step)"
  proof -
    consider (same) "?step = (h, a)"
      | (copy) ctx resp where "contextFor contexts h a = Some ctx" "needsAIEnhancement (h ! a)"
          "analyzeCode host (buildRequest host r (h ! a) ctx) = Inr resp"
          "?step = (h @ [enhancedCopy host (h ! a) resp], length h)"
      using enhanceStep_cases[of host r h a contexts] by blast
    then show ?thesis
    proof cases
      case same
      then show ?thesis
        using old[OF a_lt] by (simp add: keeps_def sameOutsideEnhancement_refl)
    next
      case copy
      have "e1 = [enhancedCopy host (h ! a) resp]"
        using e1 copy(4) by simp
      then have at: "?h2 ! length h = enhancedCopy host (h ! a) resp"
        using e2 by (simp add: nth_append)
      have k1: "sameOutsideEnhancement (h ! a) (?h2 ! length h)"
        unfolding at by (rule sameOutsideEnhancement_copy)
      have k2: "prefix (message (h ! a)) (message (?h2 ! length h))"
        unfolding at by (simp add: enhancedCopy_def prefix_formatEnhancedMessage)
      have k3: "\<not> enhancementFails host r contexts h a"
        using copy by (simp add: enhancementFails_def)
      have "snd ?step = length h" using copy(4) by simp
      then show ?thesis
        using k1 k2 k3 by (simp add: keeps_def)
    qed
  qed
  show ?case
    using head tail by (simp del: enhanceIssues.simps add: enhanceIssues_Cons)
qed

lemma length_enhanceIssues:
  "length (snd (enhanceIssues host r h refs contexts)) = length refs"
  by (induction refs arbitrary: h) (simp_all add: Let_def)

text \<open>
  Claim C10. \<^verbatim>\<open>enhanceIssues\<close> returns as many issues as it is given, in the same
  order; each returned issue equals its input issue outside the message and the
  enhancement payload, and its message starts with the input's message; an issue whose
  enhancement fails (the LLM call raises) comes back as the same, unchanged object; no
  object that existed before is changed.
\<close>

theorem enhanceIssues_frame:
  assumes "\<forall>a\<in>set refs. a < length h"
  shows "length (snd (enhanceIssues host r h refs contexts)) = length refs
       \<and> take (length h) (fst (enhanceIssues host r h refs contexts)) = h
       \<and> list_all2 (\<lambda>a b.
            sameOutsideEnhancement (h ! a) (fst (enhanceIssues host r h refs contexts) ! b)
            \<and> prefix (message (h ! a)) (message (fst (enhanceIssues host r h refs contexts) ! b))
            \<and> (enhancementFails host r contexts h a
                 \<longrightarrow> b = a \<and> fst (enhanceIssues host r h refs contexts) ! b = h ! a))
           refs (snd (enhanceIssues host r h refs contexts))"
proof -
  obtain ext where "fst (enhanceIssues host r h refs contexts) = h @ ext"
    using enhanceIssues_grows by blast
  then have "take (length h) (fst (enhanceIssues host r h refs contexts)) = h" by simp
  then show ?thesis
    using enhanceIssues_keeps[OF assms, of host r contexts] length_enhanceIssues[of host r h refs contexts]
    by (simp add: keeps_def[abs_def])
qed

lemma sample_enhance:
  "enhanceIssues sampleHost sampleAIRule sampleHeap [0, 1, 2] (\<lambda>a. None)
   = (sampleHeap @ [enhancedCopy sampleHost (sampleHeap ! 0) sampleResponse], [3, 1, 2])"
  by (simp add: sampleHeap_def sampleHost_def enhanceIssueWithAI_def contextFor_def
      markIssue_def newIssue_def buildRequest_def Let_def)

theorem enhanceIssues_frame_witness:
  "list_all (\<lambda>a. a < length sampleHeap) [0, 1, 2]
   \<and> enhancementFails sampleHost sampleAIRule (\<lambda>a. None) sampleHeap 1
   \<and> snd (enhanceIssues sampleHost sampleAIRule sampleHeap [0, 1, 2] (\<lambda>a. None)) = [3, 1, 2]
   \<and> take 3 (fst (enhanceIssues sampleHost sampleAIRule sampleHeap [0, 1, 2] (\<lambda>a. None))) = sampleHeap
   \<and> sameOutsideEnhancement (sampleHeap ! 0)
        (fst (enhanceIssues sampleHost sampleAIRule sampleHeap [0, 1, 2] (\<lambda>a. None)) ! 3)
   \<and> prefix ''tie''
        (message (fst (enhanceIssues sampleHost sampleAIRule sampleHeap [0, 1, 2] (\<lambda>a. None)) ! 3))
   \<and> fst (enhanceIssues sampleHost sampleAIRule sampleHeap [0, 1, 2] (\<lambda>a. None)) ! 1 = sampleHeap ! 1"
proof -
  have wf: "\<forall>a\<in>set [0, 1, 2]. a < length sampleHeap"
    by (simp add: sampleHeap_def)
  have fails: "enhancementFails sampleHost sampleAIRule (\<lambda>a. None) sampleHeap 1"
    by (simp add: enhancementFails_def sampleHeap_def sampleHost_def contextFor_def
        markIssue_def newIssue_def buildRequest_def)
  have msg: "message (sampleHeap ! 0) = ''tie''"
    by (simp add: sampleHeap_def markIssue_def newIssue_def)
  have len: "length sampleHeap = 3" by (simp add: sampleHeap_def)
  show ?thesis
    using enhanceIssues_frame[OF wf, of sampleHost sampleAIRule "\<lambda>a. None"] fails wf
    unfolding sample_enhance
    by (simp add: msg len)
qed

section \<open>Findings after their creation\<close>

lemma sameDeclaredFields_refl: "sameDeclaredFields i i"
  by (simp add: sameDeclaredFields_def)

lemma sameDeclaredFields_mark:
  "sameDeclaredFields i j \<Longrightarrow> sameDeclaredFields i (markIssue ctx j)"
  by (cases i, cases j) (simp add: sameDeclaredFields_def markIssue_def)

lemma markAll_declared:
  "list_all2 sameDeclaredFields h0 h \<Longrightarrow> list_all2 sameDeclaredFields h0 (markAll ctx refs h)"
proof (induction refs arbitrary: h)
  case Nil
  then show ?case by simp
next
  case (Cons a rest)
  have "list_all2 sameDeclaredFields h0 (h[a := markIssue ctx (h ! a)])"
  proof (cases "a < length h")
    case True
    then have "sameDeclaredFields (h0 ! a) (markIssue ctx (h ! a))"
      using Cons.prems by (simp add: list_all2_conv_all_nth sameDeclaredFields_mark)
    then have "list_all2 sameDeclaredFields (h0[a := h0 ! a]) (h[a := markIssue ctx (h ! a)])"
      using Cons.prems by (rule list_all2_update_cong[rotated])
    then show ?thesis by simp
  next
    case False
    then have "h[a := markIssue ctx (h ! a)] = h" by (simp add: list_update_beyond)
    then show ?thesis using Cons.prems by simp
  qed
  then show ?case using Cons.IH by simp
qed

lemma list_all2_same_refl: "(\<And>x. P x x) \<Longrightarrow> list_all2 P xs xs"
  by (simp add: list_all2_same)

lemma applyAI_declared:
  assumes "applyAI r tree ctx (h, sink) = Inr (h', sink')"
  shows "prefix sink sink' \<and> list_all2 sameDeclaredFields h (take (length h) h')"
proof (cases "rule_apply (baseRule r) tree ctx")
  case (Inl err)
  then show ?thesis using assms by (simp add: applyAI_def)
next
  case (Inr pushed)
  let ?h1 = "h @ pushed"
  let ?sink1 = "sink @ [length h ..< length h + length pushed]"
  have base: "list_all2 sameDeclaredFields ?h1 ?h1"
    by (rule list_all2_same_refl) (rule sameDeclaredFields_refl)
  have sink: "sink' = ?sink1"
    using assms Inr by (simp add: applyAI_def Let_def split: if_splits)
  have "list_all2 sameDeclaredFields ?h1 h'"
    using assms Inr markAll_declared[OF base] base by (auto simp: applyAI_def Let_def split: if_splits)
  then have "list_all2 sameDeclaredFields (take (length h) ?h1) (take (length h) h')"
    by (rule list_all2_takeI)
  then show ?thesis using sink by simp
qed

lemma enhanceIssues_same_or_new:
  "list_all2 (\<lambda>a b. b = a \<or> length h \<le> b) refs (snd (enhanceIssues host r h refs contexts))"
proof (induction refs arbitrary: h)
  case Nil
  show ?case by simp
next
  case (Cons a rest)
  let ?step = "enhanceStep host r h a contexts"
  have len: "length h \<le> length (fst ?step)" and head: "snd ?step = a \<or> length h \<le> snd ?step"
    using enhanceStep_cases[of host r h a contexts] by auto
  have "list_all2 (\<lambda>a b. b = a \<or> length (fst ?step) \<le> b) rest
          (snd (enhanceIssues host r (fst ?step) rest contexts))"
    by (rule Cons.IH)
  then have "list_all2 (\<lambda>a b. b = a \<or> length h \<le> b) rest
          (snd (enhanceIssues host r (fst ?step) rest contexts))"
    by (rule list_all2_mono) (use len in auto)
  then show ?case
    using head by (simp del: enhanceIssues.simps add: enhanceIssues_Cons)
qed

lemma enhanceStep_contexts:
  assumes "contexts a = contexts' a"
  shows "enhanceStep host r h a contexts = enhanceStep host r h a contexts'"
  unfolding enhanceStep_def contextFor_def assms ..

lemma enhanceIssues_contexts:
  "list_all (\<lambda>a. contexts a = contexts' a) refs
   \<Longrightarrow> enhanceIssues host r h refs contexts = enhanceIssues host r h refs contexts'"
proof (induction refs arbitrary: h)
  case Nil
  show ?case by simp
next
  case (Cons a rest)
  have step: "enhanceStep host r h a contexts = enhanceStep host r h a contexts'"
    using Cons.prems by (intro enhanceStep_contexts) simp
  have rest: "list_all (\<lambda>a. contexts a = contexts' a) rest"
    using Cons.prems by simp
  have "enhanceIssues host r (fst (enhanceStep host r h a contexts')) rest contexts
      = enhanceIssues host r (fst (enhanceStep host r h a contexts')) rest contexts'"
    using rest by (rule Cons.IH)
  then show ?case
    unfolding enhanceIssues_Cons step by simp
qed

lemma markIssue_idem: "markIssue ctx (markIssue ctx i) = markIssue ctx i"
  by (simp add: markIssue_def)

lemma length_markAll: "length (markAll ctx refs h) = length h"
  by (induction refs arbitrary: h) simp_all

lemma markAll_nth:
  "a < length h \<Longrightarrow>
   markAll ctx refs h ! a = (if a \<in> set refs then markIssue ctx (h ! a) else h ! a)"
proof (induction refs arbitrary: h)
  case Nil
  show ?case by simp
next
  case (Cons b rest)
  let ?h = "h[b := markIssue ctx (h ! b)]"
  have "a < length ?h" using Cons.prems by simp
  then have "markAll ctx rest ?h ! a = (if a \<in> set rest then markIssue ctx (?h ! a) else ?h ! a)"
    by (rule Cons.IH)
  then have step: "markAll ctx (b # rest) h ! a
      = (if a \<in> set rest then markIssue ctx (?h ! a) else ?h ! a)"
    by simp
  show ?case
  proof (cases "a = b")
    case True
    have "?h ! a = markIssue ctx (h ! a)"
      using Cons.prems True by simp
    then show ?thesis
      unfolding step using True by (simp add: markIssue_idem)
  next
    case False
    then have "?h ! a = h ! a" by simp
    then show ?thesis
      unfolding step using False by simp
  qed
qed

lemma applyAI_marks:
  assumes "applyAI r tree ctx (h, sink) = Inr (h', sink')"
  shows "\<exists>pushed. rule_apply (baseRule r) tree ctx = Inr pushed
           \<and> sink' = sink @ [length h ..< length h + length pushed]
           \<and> length h' = length h + length pushed
           \<and> (\<forall>a < length h'.
                 h' ! a = (if enableAI r \<and> a \<in> set sink'
                              \<and> ruleId ((h @ pushed) ! a) = rule_id (baseRule r)
                           then markIssue ctx ((h @ pushed) ! a) else (h @ pushed) ! a))"
proof (cases "rule_apply (baseRule r) tree ctx")
  case (Inl err)
  then show ?thesis using assms by (simp add: applyAI_def)
next
  case (Inr pushed)
  let ?h1 = "h @ pushed"
  let ?sink1 = "sink @ [length h ..< length h + length pushed]"
  let ?refs = "filter (\<lambda>a. ruleId (?h1 ! a) = rule_id (baseRule r)) ?sink1"
  have sink: "sink' = ?sink1"
    using assms Inr by (simp add: applyAI_def Let_def split: if_splits)
  have heap: "h' = (if enableAI r then markAll ctx ?refs ?h1 else ?h1)"
    using assms Inr by (simp add: applyAI_def Let_def split: if_splits)
  have len: "length h' = length h + length pushed"
    by (simp add: heap length_markAll)
  have "\<forall>a < length h'. h' ! a = (if enableAI r \<and> a \<in> set sink'
                              \<and> ruleId (?h1 ! a) = rule_id (baseRule r)
                           then markIssue ctx (?h1 ! a) else ?h1 ! a)"
  proof (intro allI impI)
    fix a assume "a < length h'"
    then have "a < length ?h1" using len by simp
    then show "h' ! a = (if enableAI r \<and> a \<in> set sink'
                              \<and> ruleId (?h1 ! a) = rule_id (baseRule r)
                           then markIssue ctx (?h1 ! a) else ?h1 ! a)"
      unfolding heap sink using markAll_nth[of a ?h1 ctx ?refs] by auto
  qed
  then show ?thesis using Inr sink len by blast
qed

text \<open>
  Claim C4, as amended. After an issue is created no operation changes its declared
  fields in place. \<^verbatim>\<open>AIEnhancedRule.apply\<close> keeps the context's array and appends to
  it the references of the issues its base rule pushes; when AI is enabled it sets, in
  place, the two dynamic properties \<^verbatim>\<open>_needsAIEnhancement\<close> and \<^verbatim>\<open>_aiContext\<close> on
  exactly the issues of the context's array that carry the base rule's identifier, those
  created earlier included, and changes nothing else on the heap; when AI is disabled it
  changes no issue. Enhancement changes no existing object and returns for each issue
  the same object or a newly allocated one; the context of an issue is found by the
  issue object's reference, so context maps that agree on the references passed give
  the same result.
\<close>

theorem findings_after_creation:
  assumes "applyAI r tree ctx (h, sink) = Inr (h', sink')"
  shows "prefix sink sink'
       \<and> list_all2 sameDeclaredFields h (take (length h) h')
       \<and> (\<exists>pushed. rule_apply (baseRule r) tree ctx = Inr pushed
             \<and> sink' = sink @ [length h ..< length h + length pushed]
             \<and> length h' = length h + length pushed
             \<and> (\<forall>a < length h'.
                   h' ! a = (if enableAI r \<and> a \<in> set sink'
                                \<and> ruleId ((h @ pushed) ! a) = rule_id (baseRule r)
                             then markIssue ctx ((h @ pushed) ! a) else (h @ pushed) ! a)))
       \<and> (enableAI r \<longrightarrow>
            (\<forall>a\<in>set sink'. a < length h' \<and> ruleId (h' ! a) = rule_id (baseRule r)
                \<longrightarrow> needsAIEnhancement (h' ! a) \<and> aiContext (h' ! a) = Some ctx))
       \<and> take (length h') (fst (enhanceIssues host r h' refs contexts)) = h'
       \<and> list_all2 (\<lambda>a b. b = a \<or> length h' \<le> b) refs
            (snd (enhanceIssues host r h' refs contexts))
       \<and> (list_all (\<lambda>a. contexts a = contexts' a) refs
            \<longrightarrow> enhanceIssues host r h' refs contexts = enhanceIssues host r h' refs contexts')"
proof (intro conjI impI ballI)
  show "prefix sink sink'" and "list_all2 sameDeclaredFields h (take (length h) h')"
    using applyAI_declared[OF assms] by simp_all
  show "\<exists>pushed. rule_apply (baseRule r) tree ctx = Inr pushed
             \<and> sink' = sink @ [length h ..< length h + length pushed]
             \<and> length h' = length h + length pushed
             \<and> (\<forall>a < length h'.
                   h' ! a = (if enableAI r \<and> a \<in> set sink'
                                \<and> ruleId ((h @ pushed) ! a) = rule_id (baseRule r)
                             then markIssue ctx ((h @ pushed) ! a) else (h @ pushed) ! a))"
    using assms by (rule applyAI_marks)
  obtain ext where "fst (enhanceIssues host r h' refs contexts) = h' @ ext"
    using enhanceIssues_grows by blast
  then show "take (length h') (fst (enhanceIssues host r h' refs contexts)) = h'" by simp
  show "list_all2 (\<lambda>a b. b = a \<or> length h' \<le> b) refs
          (snd (enhanceIssues host r h' refs contexts))"
    by (rule enhanceIssues_same_or_new)
next
  fix a
  assume ai: "enableAI r" and a: "a \<in> set sink'"
    and own: "a < length h' \<and> ruleId (h' ! a) = rule_id (baseRule r)"
  obtain pushed where at: "\<forall>a < length h'.
        h' ! a = (if enableAI r \<and> a \<in> set sink'
                     \<and> ruleId ((h @ pushed) ! a) = rule_id (baseRule r)
                  then markIssue ctx ((h @ pushed) ! a) else (h @ pushed) ! a)"
    using applyAI_marks[OF assms] by blast
  have here: "h' ! a = (if ruleId ((h @ pushed) ! a) = rule_id (baseRule r)
                        then markIssue ctx ((h @ pushed) ! a) else (h @ pushed) ! a)"
    using at own ai a by simp
  then have "ruleId ((h @ pushed) ! a) = rule_id (baseRule r)"
    using own by (cases "ruleId ((h @ pushed) ! a) = rule_id (baseRule r)")
      (simp_all add: markIssue_def)
  then have "h' ! a = markIssue ctx ((h @ pushed) ! a)"
    using here by simp
  then show "needsAIEnhancement (h' ! a)" and "aiContext (h' ! a) = Some ctx"
    by (simp_all add: markIssue_def)
next
  assume "list_all (\<lambda>a. contexts a = contexts' a) refs"
  then show "enhanceIssues host r h' refs contexts = enhanceIssues host r h' refs contexts'"
    by (rule enhanceIssues_contexts)
qed

lemma sample_apply:
  "applyAI sampleAIRule sampleTree sampleContext ([earlierIssue], [0])
   = Inr ([markIssue sampleContext earlierIssue,
           markIssue sampleContext (newIssue ''b'' Error ''A.sol'' 3 1 ''tie'')], [0, 1])"
  by (simp add: applyAI_def sampleAIRule_def sampleRuleB_def sampleContext_def earlierIssue_def
      newIssue_def Let_def)

theorem findings_after_creation_witness:
  "applyAI sampleAIRule sampleTree sampleContext ([earlierIssue], [0])
     = Inr ([markIssue sampleContext earlierIssue,
             markIssue sampleContext (newIssue ''b'' Error ''A.sol'' 3 1 ''tie'')], [0, 1])
   \<and> sameDeclaredFields earlierIssue (markIssue sampleContext earlierIssue)
   \<and> needsAIEnhancement (markIssue sampleContext earlierIssue)
   \<and> aiContext (markIssue sampleContext earlierIssue) = Some sampleContext
   \<and> take 2 (fst (enhanceIssues sampleHost sampleAIRule
          [markIssue sampleContext earlierIssue,
           markIssue sampleContext (newIssue ''b'' Error ''A.sol'' 3 1 ''tie'')] [0, 1] (map_of [])))
       = [markIssue sampleContext earlierIssue,
          markIssue sampleContext (newIssue ''b'' Error ''A.sol'' 3 1 ''tie'')]
   \<and> snd (enhanceIssues sampleHost sampleAIRule
          [markIssue sampleContext earlierIssue,
           markIssue sampleContext (newIssue ''b'' Error ''A.sol'' 3 1 ''tie'')] [0, 1] (map_of []))
       = [2, 3]"
proof -
  let ?h1 = "[markIssue sampleContext earlierIssue,
              markIssue sampleContext (newIssue ''b'' Error ''A.sol'' 3 1 ''tie'')]"
  have out: "snd (enhanceIssues sampleHost sampleAIRule ?h1 [0, 1] (map_of [])) = [2, 3]"
    by (simp add: sampleHost_def enhanceIssueWithAI_def contextFor_def earlierIssue_def
        markIssue_def newIssue_def buildRequest_def Let_def)
  note inst = findings_after_creation[OF sample_apply, of sampleHost "[0, 1]" "map_of []" "map_of []"]
  have ai: "enableAI sampleAIRule" by (simp add: sampleAIRule_def)
  have own: "0 < length ?h1 \<and> ruleId (?h1 ! 0) = rule_id (baseRule sampleAIRule)"
    by (simp add: sampleAIRule_def sampleRuleB_def markIssue_def earlierIssue_def newIssue_def)
  have "needsAIEnhancement (?h1 ! 0) \<and> aiContext (?h1 ! 0) = Some sampleContext"
    using inst[THEN conjunct2, THEN conjunct2, THEN conjunct2, THEN conjunct1, THEN mp, OF ai,
        THEN bspec, of 0, THEN mp, OF _ own]
    by simp
  then have marked: "needsAIEnhancement (markIssue sampleContext earlierIssue)
      \<and> aiContext (markIssue sampleContext earlierIssue) = Some sampleContext"
    by simp
  show ?thesis
    using inst sample_apply out marked
    by (simp del: enhanceIssues.simps add: numeral_2_eq_2)
qed

lemma sample_apply_first:
  "applyAI sampleAIRule sampleTree sampleContext ([], []) = Inr ([markedTie], [0])"
  by (simp add: applyAI_def sampleAIRule_def sampleRuleB_def sampleContext_def
      newIssue_def Let_def markedTie_def)

lemma sample_apply_second:
  "applyAI sampleAIRule sampleTree sampleContext ([markedTie], [0])
     = Inr ([markedTie, markedTie], [0, 1])"
  by (simp add: applyAI_def sampleAIRule_def sampleRuleB_def sampleContext_def
      newIssue_def Let_def markedTie_def markIssue_def)

text \<open>
  The claim as stated fails: \<^verbatim>\<open>apply\<close> changes an issue that was created earlier, in
  place. And the context map is keyed by the object: after two applications of the rule
  the context holds two issues equal in every field, so of the same identity, and the
  one whose object is a key of the map is enhanced with the map's context, the other
  with its own \<^verbatim>\<open>_aiContext\<close>.
\<close>

theorem finding_marked_in_place:
  "applyAI sampleAIRule sampleTree sampleContext ([earlierIssue], [0])
     = Inr ([markIssue sampleContext earlierIssue,
             markIssue sampleContext (newIssue ''b'' Error ''A.sol'' 3 1 ''tie'')], [0, 1])
   \<and> markIssue sampleContext earlierIssue \<noteq> earlierIssue
   \<and> \<not> needsAIEnhancement earlierIssue \<and> aiContext earlierIssue = None
   \<and> needsAIEnhancement (markIssue sampleContext earlierIssue)
   \<and> aiContext (markIssue sampleContext earlierIssue) = Some sampleContext
   \<and> applyAI sampleAIRule sampleTree sampleContext ([], []) = Inr ([markedTie], [0])
   \<and> applyAI sampleAIRule sampleTree sampleContext ([markedTie], [0])
       = Inr ([markedTie, markedTie], [0, 1])
   \<and> map (\<lambda>b. map_option explanation
               (aiEnhancement (fst (enhanceIssues echoHost sampleAIRule [markedTie, markedTie]
                                      [0, 1] (map_of [(0, otherContext)])) ! b)))
         (snd (enhanceIssues echoHost sampleAIRule [markedTie, markedTie]
                 [0, 1] (map_of [(0, otherContext)])))
       = [Some ''contract Other {}'', Some ''contract Vault {}'']"
proof -
  have changed: "markIssue sampleContext earlierIssue \<noteq> earlierIssue"
    by (simp add: markIssue_def earlierIssue_def newIssue_def)
  have before: "\<not> needsAIEnhancement earlierIssue \<and> aiContext earlierIssue = None"
    by (simp add: earlierIssue_def newIssue_def)
  have after: "needsAIEnhancement (markIssue sampleContext earlierIssue)
      \<and> aiContext (markIssue sampleContext earlierIssue) = Some sampleContext"
    by (simp add: markIssue_def)
  have keyed: "map (\<lambda>b. map_option explanation
               (aiEnhancement (fst (enhanceIssues echoHost sampleAIRule [markedTie, markedTie]
                                      [0, 1] (map_of [(0, otherContext)])) ! b)))
         (snd (enhanceIssues echoHost sampleAIRule [markedTie, markedTie]
                 [0, 1] (map_of [(0, otherContext)])))
       = [Some ''contract Other {}'', Some ''contract Vault {}'']"
    by (simp add: echoHost_def sampleHost_def enhanceIssueWithAI_def contextFor_def
        markedTie_def markIssue_def newIssue_def buildRequest_def Let_def enhancedCopy_def
        sampleResponse_def sampleContext_def otherContext_def extractCodeSnippet_def
        jsSlice_def newline_def)
  show ?thesis
    using sample_apply changed before after sample_apply_first sample_apply_second keyed
    by (simp del: enhanceIssues.simps)
qed

section \<open>Registration of a playbook file\<close>










section \<open>How a run ends\<close>

lemma enhanceStep_valid:
  assumes "a < length h"
  shows "snd (enhanceStep host r h a contexts) < length (fst (enhanceStep host r h a contexts))"
  using enhanceStep_cases[of host r h a contexts] assms by auto

lemma enhanceIssues_valid:
  assumes "\<forall>a\<in>set refs. a < length h"
  shows "\<forall>b\<in>set (snd (enhanceIssues host r h refs contexts)).
           b < length (fst (enhanceIssues host r h refs contexts))"
  using assms
proof (induction refs arbitrary: h)
  case Nil
  show ?case by simp
next
  case (Cons a rest)
  let ?step = "enhanceStep host r h a contexts"
  let ?later = "enhanceIssues host r (fst ?step) rest contexts"
  obtain e1 where e1: "fst ?step = h @ e1"
    using enhanceStep_cases[of host r h a contexts] by auto
  obtain e2 where e2: "fst ?later = fst ?step @ e2"
    using enhanceIssues_grows[of host r "fst ?step" rest contexts] by auto
  have "\<forall>x\<in>set rest. x < length (fst ?step)"
    using Cons.prems by (auto simp: e1)
  then have later: "\<forall>b\<in>set (snd ?later). b < length (fst ?later)"
    by (rule Cons.IH)
  have "snd ?step < length (fst ?step)"
    using Cons.prems by (intro enhanceStep_valid) simp
  then have "snd ?step < length (fst ?later)"
    by (simp add: e2)
  then show ?case
    using later by (simp del: enhanceIssues.simps add: enhanceIssues_Cons)
qed

lemma list_all2_map_eq:
  "list_all2 (\<lambda>a b. f a = g b) xs ys \<Longrightarrow> map f xs = map g ys"
  by (induction xs ys rule: list_all2_induct) simp_all

lemma sameOutsideEnhancement_aiContext:
  "sameOutsideEnhancement old new \<Longrightarrow> aiContext new = aiContext old"
  by (cases old, cases new) (simp add: sameOutsideEnhancement_def)

lemma enhanceIssues_aiContext:
  assumes "\<forall>a\<in>set refs. a < length h"
  shows "map (\<lambda>b. aiContext (fst (enhanceIssues host r h refs contexts) ! b))
           (snd (enhanceIssues host r h refs contexts))
         = map (\<lambda>a. aiContext (h ! a)) refs"
proof -
  let ?E = "enhanceIssues host r h refs contexts"
  have "list_all2 (keeps host r contexts h (fst ?E)) refs (snd ?E)"
    using assms by (rule enhanceIssues_keeps)
  then have "list_all2 (\<lambda>a b. aiContext (h ! a) = aiContext (fst ?E ! b)) refs (snd ?E)"
  proof (rule list_all2_mono)
    fix a b assume "keeps host r contexts h (fst ?E) a b"
    then have "sameOutsideEnhancement (h ! a) (fst ?E ! b)"
      by (simp add: keeps_def)
    then show "aiContext (h ! a) = aiContext (fst ?E ! b)"
      by (rule sameOutsideEnhancement_aiContext[symmetric])
  qed
  then have "map (\<lambda>a. aiContext (h ! a)) refs = map (\<lambda>b. aiContext (fst ?E ! b)) (snd ?E)"
    by (rule list_all2_map_eq)
  then show ?thesis by simp
qed

lemma enhanceWithAll_aiContext:
  assumes "\<forall>a\<in>set (snd state). a < length (fst state)"
  shows "map (\<lambda>b. aiContext (fst (enhanceWithAll host aiRules contexts state) ! b))
           (snd (enhanceWithAll host aiRules contexts state))
         = map (\<lambda>a. aiContext (fst state ! a)) (snd state)"
  using assms
proof (induction aiRules arbitrary: state)
  case Nil
  show ?case by simp
next
  case (Cons aiRule others)
  let ?next = "enhanceIssues host aiRule (fst state) (snd state) contexts"
  have "\<forall>b\<in>set (snd ?next). b < length (fst ?next)"
    using Cons.prems by (rule enhanceIssues_valid)
  then have "map (\<lambda>b. aiContext (fst (enhanceWithAll host others contexts ?next) ! b))
               (snd (enhanceWithAll host others contexts ?next))
             = map (\<lambda>a. aiContext (fst ?next ! a)) (snd ?next)"
    by (rule Cons.IH)
  also have "\<dots> = map (\<lambda>a. aiContext (fst state ! a)) (snd state)"
    using Cons.prems by (rule enhanceIssues_aiContext)
  finally show ?case by simp
qed

lemma enhanceAll_aiContext:
  "map aiContext (enhanceAll w args aiRules us found) = map aiContext found"
proof (cases "argAiEnabled args \<and> truthyString (aiApiKey w) \<and> length aiRules > 0")
  case False
  then show ?thesis by (auto simp: enhanceAll_def)
next
  case True
  let ?state = "(found, [0 ..< length found])"
  let ?final = "enhanceWithAll (llmHost w) aiRules (contextMap us found) ?state"
  have "\<forall>a\<in>set (snd ?state). a < length (fst ?state)" by simp
  then have "map (\<lambda>b. aiContext (fst ?final ! b)) (snd ?final)
      = map (\<lambda>a. aiContext (fst ?state ! a)) (snd ?state)"
    by (rule enhanceWithAll_aiContext)
  also have "\<dots> = map aiContext (map (\<lambda>a. found ! a) [0 ..< length found])"
    by simp
  also have "\<dots> = map aiContext found"
    by (simp only: map_nth)
  finally show ?thesis
    using True by (simp add: enhanceAll_def Let_def comp_def)
qed

lemma circular_enhanceAll:
  "list_ex circular (enhanceAll w args aiRules us found) = list_ex circular found"
proof -
  have "\<And>xs. list_ex circular xs = (\<exists>c\<in>set (map aiContext xs). c \<noteq> None)"
    by (auto simp: list_ex_iff circular_def)
  then show ?thesis by (simp only: enhanceAll_aiContext)
qed

lemma length_enhanceWithAll:
  "length (snd (enhanceWithAll host aiRules contexts state)) = length (snd state)"
  by (induction aiRules arbitrary: state) (simp_all add: length_enhanceIssues)

lemma outputCount_console:
  "outputCount (ConsoleOutput (fst (printReport collate r))) = length (issues r)"
  by (simp add: reportedIssues_printReport length_arraySort)

lemma writeOutput_ok:
  assumes "\<And>p. writeFileSync w p = None"
  shows "\<exists>path. writeOutput w out ext outputFile = Inr (out, path)"
  by (simp add: writeOutput_def assms)

lemma length_enhanceAll:
  "length (enhanceAll w args aiRules us found) = length found"
  by (simp add: enhanceAll_def Let_def length_enhanceWithAll)

lemma writeResults_ok:
  assumes "\<And>p. writeFileSync w p = None"
    and "argFormat args = Some ''json'' \<longrightarrow> \<not> list_ex circular allIssues"
  shows "\<exists>out path. writeResults w args reporter allIssues us = Inr (out, path)
           \<and> (length (issues reporter) = length allIssues \<longrightarrow> outputCount out = length allIssues)"
proof -
  consider (json) "argFormat args = Some ''json''"
    | (sarif) "argFormat args \<noteq> Some ''json''" "argFormat args = Some ''sarif''"
    | (console) "argFormat args \<noteq> Some ''json''" "argFormat args \<noteq> Some ''sarif''"
    by blast
  then show ?thesis
  proof cases
    case json
    then have "\<not> list_ex circular allIssues" using assms(2) by simp
    then show ?thesis
      using json writeOutput_ok[OF assms(1), of "JsonOutput (getSummary reporter) allIssues" "''.json''" "argOutput args"]
      by (auto simp: writeResults_def outputJSON_def)
  next
    case sarif
    let ?src = "case us of [] \<Rightarrow> [] | u # us' \<Rightarrow> parsedFilePath u"
    have "outputCount (SarifOutput (fst (outputSARIF allIssues ?src (argOutput args)))) = length allIssues"
      by (simp add: outputSARIF_def sarifLog_def)
    then show ?thesis
      using sarif writeOutput_ok[OF assms(1), of "SarifOutput (fst (outputSARIF allIssues ?src (argOutput args)))" "''.sarif''" "argOutput args"]
      by (auto simp: writeResults_def outputSARIFFile_def simp del: outputCount.simps)
  next
    case console
    then show ?thesis
      using outputCount_console[of "localeCompare w" reporter]
        writeOutput_ok[OF assms(1), of "ConsoleOutput (fst (printReport (localeCompare w) reporter))" "''.txt''" "argOutput args"]
      by (auto simp: writeResults_def outputConsole_def simp del: outputCount.simps)
  qed
qed

lemma circular_iff: "list_ex circular xs \<longleftrightarrow> (\<exists>i\<in>set xs. aiContext i \<noteq> None)"
  by (simp add: list_ex_iff circular_def)

lemma runAnalysis_produces:
  assumes "\<And>p. writeFileSync w p = None"
    and "argFormat args = Some ''json''
           \<longrightarrow> (\<forall>i\<in>set (findings (analyzeMultiple activeRules us)). aiContext i = None)"
  shows "\<exists>result out. runAnalysis w args activeRules aiRules us = Inr result
           \<and> diagnostics result = []
           \<and> (ending result = Returned \<or> ending result = Exited 1)
           \<and> produced result = Some out
           \<and> outputCount out = length (findings (analyzeMultiple activeRules us))"
proof -
  let ?found = "findings (analyzeMultiple activeRules us)"
  let ?all = "enhanceAll w args aiRules us ?found"
  let ?reporter = "addIssues ?all newReporter"
  have rep: "length (issues ?reporter) = length ?all"
    by (simp add: addIssues_def newReporter_def)
  have "argFormat args = Some ''json'' \<longrightarrow> \<not> list_ex circular ?found"
    using assms(2) by (simp add: circular_iff)
  then have nc: "argFormat args = Some ''json'' \<longrightarrow> \<not> list_ex circular ?all"
    by (simp only: circular_enhanceAll)
  obtain out path where wr: "writeResults w args ?reporter ?all us = Inr (out, path)"
    and cnt: "outputCount out = length ?all"
    using writeResults_ok[OF assms(1) nc, of ?reporter us] rep by blast
  show ?thesis
    using wr cnt by (simp add: runAnalysis_def Let_def length_enhanceAll)
qed

lemma runAnalysis_circular:
  assumes "argFormat args = Some ''json''"
    and "\<exists>i\<in>set (findings (analyzeMultiple activeRules us)). aiContext i \<noteq> None"
  shows "runAnalysis w args activeRules aiRules us = Inl (stringifyError w)"
proof -
  let ?found = "findings (analyzeMultiple activeRules us)"
  let ?all = "enhanceAll w args aiRules us ?found"
  have "list_ex circular ?found" using assms(2) by (simp add: circular_iff)
  then have "list_ex circular ?all" by (simp only: circular_enhanceAll)
  then have "writeResults w args (addIssues ?all newReporter) ?all us = Inl (stringifyError w)"
    using assms(1) by (simp add: writeResults_def outputJSON_def)
  then show ?thesis by (simp add: runAnalysis_def Let_def)
qed

lemma taskBody_at_parser:
  assumes "reachesParser w selected"
  shows "taskBody w =
     (case parseAllSourceFiles w (contractsPath w) of
        ParseErrorRaised msg \<Rightarrow> Inr (aborted (crossMark @ '' Parse error: '' @ msg))
      | OtherErrorRaised msg \<Rightarrow>
          Inr (aborted (crossMark @ '' Failed to parse source files: '' @ msg))
      | Parsed parseResults \<Rightarrow>
          if length parseResults = 0 then Inr finished
          else runAnalysis w (parseArgs w) (activeRulesFor w (parseArgs w) selected)
                 (aiRulesFor w (parseArgs w) selected) parseResults)"
  using assms
  by (auto simp: reachesParser_def taskBody_def Let_def split: sum.splits option.splits)

text \<open>
  Claim C5, as amended. Once the task has reached the parser: a \<^verbatim>\<open>ParseError\<close> ends
  the run at once with exit code 1, the one parse diagnostic and no output; any other
  exception of the parser does the same with its own diagnostic; no parsed file ends
  the run without output; and at least one parsed file, with a file writer that does
  not raise and, for the JSON format, no collected finding that carries an
  \<^verbatim>\<open>_aiContext\<close>, gives an output that holds as many findings as the engine collected
  and ends the run by a return or by exit code 1, with no diagnostic. Every exception
  that reaches the outer \<^verbatim>\<open>catch\<close> ends the run with exit code 1, no output and the
  diagnostic \<^verbatim>\<open>Analysis failed\<close> first; an exception raised while the rules are
  determined is one.
\<close>

theorem analyzeTask_halting:
  "(reachesParser w selected \<longrightarrow>
      (\<forall>msg. parseAllSourceFiles w (contractsPath w) = ParseErrorRaised msg
          \<longrightarrow> analyzeTask w = aborted (crossMark @ '' Parse error: '' @ msg))
      \<and> (\<forall>msg. parseAllSourceFiles w (contractsPath w) = OtherErrorRaised msg
          \<longrightarrow> analyzeTask w = aborted (crossMark @ '' Failed to parse source files: '' @ msg))
      \<and> (parseAllSourceFiles w (contractsPath w) = Parsed [] \<longrightarrow> analyzeTask w = finished)
      \<and> (\<forall>us. parseAllSourceFiles w (contractsPath w) = Parsed us \<and> us \<noteq> []
                \<and> (\<forall>p. writeFileSync w p = None)
                \<and> (argFormat (parseArgs w) = Some ''json''
                     \<longrightarrow> (\<forall>i\<in>set (findings (analyzeMultiple
                                    (activeRulesFor w (parseArgs w) selected) us)).
                            aiContext i = None))
          \<longrightarrow> diagnostics (analyzeTask w) = []
              \<and> (ending (analyzeTask w) = Returned \<or> ending (analyzeTask w) = Exited 1)
              \<and> (\<exists>out. produced (analyzeTask w) = Some out
                    \<and> outputCount out
                        = length (findings (analyzeMultiple
                            (activeRulesFor w (parseArgs w) selected) us)))))
   \<and> (\<forall>err. taskBody w = Inl err
         \<longrightarrow> analyzeTask w = failed w err
             \<and> ending (analyzeTask w) = Exited 1
             \<and> hd (diagnostics (analyzeTask w)) = crossMark @ '' Analysis failed: '' @ err
             \<and> produced (analyzeTask w) = None)
   \<and> (\<forall>err. initialize w = None \<and> \<not> argShowSamples (parseArgs w)
             \<and> \<not> argListPlaybooks (parseArgs w)
             \<and> \<not> truthyString (argUploadPlaybook (parseArgs w))
             \<and> determineAnalysisRules w (parseArgs w) = Inl err
         \<longrightarrow> analyzeTask w = failed w err)"
proof (intro conjI impI allI)
  fix msg
  assume "reachesParser w selected" "parseAllSourceFiles w (contractsPath w) = ParseErrorRaised msg"
  then show "analyzeTask w = aborted (crossMark @ '' Parse error: '' @ msg)"
    by (simp add: analyzeTask_def taskBody_at_parser)
next
  fix msg
  assume "reachesParser w selected" "parseAllSourceFiles w (contractsPath w) = OtherErrorRaised msg"
  then show "analyzeTask w = aborted (crossMark @ '' Failed to parse source files: '' @ msg)"
    by (simp add: analyzeTask_def taskBody_at_parser)
next
  assume "reachesParser w selected" "parseAllSourceFiles w (contractsPath w) = Parsed []"
  then show "analyzeTask w = finished"
    by (simp add: analyzeTask_def taskBody_at_parser)
next
  fix us
  assume r: "reachesParser w selected"
    and p: "parseAllSourceFiles w (contractsPath w) = Parsed us \<and> us \<noteq> []
              \<and> (\<forall>p. writeFileSync w p = None)
              \<and> (argFormat (parseArgs w) = Some ''json''
                     \<longrightarrow> (\<forall>i\<in>set (findings (analyzeMultiple
                                    (activeRulesFor w (parseArgs w) selected) us)).
                            aiContext i = None))"
  let ?run = "runAnalysis w (parseArgs w) (activeRulesFor w (parseArgs w) selected)
                 (aiRulesFor w (parseArgs w) selected) us"
  have body: "taskBody w = ?run"
    using p by (simp add: taskBody_at_parser[OF r])
  have wf: "\<And>p. writeFileSync w p = None" using p by simp
  have nc: "argFormat (parseArgs w) = Some ''json''
             \<longrightarrow> (\<forall>i\<in>set (findings (analyzeMultiple
                                    (activeRulesFor w (parseArgs w) selected) us)).
                            aiContext i = None)"
    using p by blast
  obtain result out where res: "?run = Inr result" "diagnostics result = []"
      "ending result = Returned \<or> ending result = Exited 1" "produced result = Some out"
      "outputCount out = length (findings (analyzeMultiple (activeRulesFor w (parseArgs w) selected) us))"
    using runAnalysis_produces[OF wf nc, of "aiRulesFor w (parseArgs w) selected"]
    by blast
  have a: "analyzeTask w = result"
    by (simp add: analyzeTask_def body res(1))
  show "diagnostics (analyzeTask w) = []" using a res by simp
  show "ending (analyzeTask w) = Returned \<or> ending (analyzeTask w) = Exited 1" using a res by simp
  show "\<exists>out. produced (analyzeTask w) = Some out
          \<and> outputCount out = length (findings (analyzeMultiple (activeRulesFor w (parseArgs w) selected) us))"
    using a res by simp
next
  fix err
  assume e: "taskBody w = Inl err"
  then show "analyzeTask w = failed w err"
    by (simp add: analyzeTask_def)
  then show "ending (analyzeTask w) = Exited 1"
    and "hd (diagnostics (analyzeTask w)) = crossMark @ '' Analysis failed: '' @ err"
    and "produced (analyzeTask w) = None"
    by (simp_all add: failed_def)
next
  fix err
  assume "initialize w = None \<and> \<not> argShowSamples (parseArgs w)
             \<and> \<not> argListPlaybooks (parseArgs w)
             \<and> \<not> truthyString (argUploadPlaybook (parseArgs w))
             \<and> determineAnalysisRules w (parseArgs w) = Inl err"
  then show "analyzeTask w = failed w err"
    by (simp add: analyzeTask_def taskBody_def Let_def)
qed

lemma sample_args:
  "parseArgs sampleWorld =
     \<lparr> argPlaybook = None, argPlaybookCid = None, argPlaybookId = None, argMode = None,
       argRules = None, argFormat = Some ''json'', argOutput = None, argShowSamples = False,
       argListPlaybooks = False, argUploadPlaybook = None, argAiEnabled = False \<rparr>"
  by (simp add: parseArgs_def sampleWorld_def orElse_def truthyString_def hasFlag_def)

lemma sample_reaches: "reachesParser sampleWorld [sampleRuleA, sampleRuleB]"
  by (simp add: reachesParser_def sample_args determineAnalysisRules_def truthyString_def)
     (simp add: sampleWorld_def)

lemma parseArgs_other_parser:
  "parseArgs (w\<lparr> parseAllSourceFiles := f \<rparr>) = parseArgs w"
  by (simp add: parseArgs_def)

lemma determineAnalysisRules_other_parser:
  "determineAnalysisRules (w\<lparr> parseAllSourceFiles := f \<rparr>) args = determineAnalysisRules w args"
  by (simp add: determineAnalysisRules_def cong: sum.case_cong if_cong)

lemma reachesParser_other_parser:
  "reachesParser (w\<lparr> parseAllSourceFiles := f \<rparr>) selected = reachesParser w selected"
  by (simp add: reachesParser_def parseArgs_other_parser determineAnalysisRules_other_parser)

lemma parse_error_reaches: "reachesParser parseErrorWorld [sampleRuleA, sampleRuleB]"
  by (simp add: parseErrorWorld_def reachesParser_other_parser sample_reaches)

lemma sample_found:
  "findings (analyzeMultiple [sampleRuleA, sampleRuleB] [sampleUnit ''A.sol''])
   = [newIssue ''a'' Warning ''A.sol'' 7 1 ''late'', newIssue ''a'' Warning ''A.sol'' 3 1 ''tie'',
      newIssue ''b'' Error ''A.sol'' 3 1 ''tie'']"
  by (simp add: sampleRuleA_def sampleRuleB_def sampleUnit_def contextOf_def Let_def)

lemma sample_active:
  "activeRulesFor sampleWorld (parseArgs sampleWorld) [sampleRuleA, sampleRuleB]
   = [sampleRuleA, sampleRuleB]"
  by (simp add: activeRulesFor_def sample_args)

theorem analyzeTask_halting_witness:
  "reachesParser parseErrorWorld [sampleRuleA, sampleRuleB]
   \<and> analyzeTask parseErrorWorld = aborted (crossMark @ '' Parse error: A.sol:3:1 unexpected token'')
   \<and> reachesParser sampleWorld [sampleRuleA, sampleRuleB]
   \<and> diagnostics (analyzeTask sampleWorld) = []
   \<and> (\<exists>out. produced (analyzeTask sampleWorld) = Some out \<and> outputCount out = 3)"
proof -
  have p1: "parseAllSourceFiles parseErrorWorld (contractsPath parseErrorWorld)
      = ParseErrorRaised ''A.sol:3:1 unexpected token''"
    by (simp add: parseErrorWorld_def)
  have a1: "analyzeTask parseErrorWorld
      = aborted (crossMark @ '' Parse error: A.sol:3:1 unexpected token'')"
    using analyzeTask_halting[of parseErrorWorld "[sampleRuleA, sampleRuleB]",
        THEN conjunct1, THEN mp, OF parse_error_reaches, THEN conjunct1, THEN spec, THEN mp, OF p1]
    by simp
  have p2: "parseAllSourceFiles sampleWorld (contractsPath sampleWorld) = Parsed [sampleUnit ''A.sol'']
      \<and> [sampleUnit ''A.sol''] \<noteq> [] \<and> (\<forall>p. writeFileSync sampleWorld p = None)
      \<and> (argFormat (parseArgs sampleWorld) = Some ''json''
            \<longrightarrow> (\<forall>i\<in>set (findings (analyzeMultiple
                          (activeRulesFor sampleWorld (parseArgs sampleWorld) [sampleRuleA, sampleRuleB])
                          [sampleUnit ''A.sol''])).
                   aiContext i = None))"
    unfolding sample_active sample_found
    by (simp add: sampleWorld_def newIssue_def)
  note at_parser = analyzeTask_halting[of sampleWorld "[sampleRuleA, sampleRuleB]",
      THEN conjunct1, THEN mp, OF sample_reaches]
  note parsed = at_parser[THEN conjunct2, THEN conjunct2, THEN conjunct2, THEN spec,
      THEN mp, OF p2]
  from parsed have "diagnostics (analyzeTask sampleWorld) = []
      \<and> (\<exists>out. produced (analyzeTask sampleWorld) = Some out
            \<and> outputCount out = length (findings (analyzeMultiple
                  (activeRulesFor sampleWorld (parseArgs sampleWorld) [sampleRuleA, sampleRuleB])
                  [sampleUnit ''A.sol''])))"
    by blast
  then have a2: "diagnostics (analyzeTask sampleWorld) = []
      \<and> (\<exists>out. produced (analyzeTask sampleWorld) = Some out \<and> outputCount out = 3)"
    unfolding sample_active sample_found by (simp add: numeral_3_eq_3)
  show ?thesis
    using a1 a2 parse_error_reaches sample_reaches by simp
qed

text \<open>
  The claim as stated fails: an error of the parser that is not a \<^verbatim>\<open>ParseError\<close>
  halts the run, and so does an unknown rule name although the sources parse.
\<close>

theorem other_errors_halt:
  "parseAllSourceFiles ioErrorWorld (contractsPath ioErrorWorld)
     = OtherErrorRaised ''EACCES: permission denied''
   \<and> analyzeTask ioErrorWorld
       = \<lparr> ending = Exited 1,
           diagnostics = [crossMark @ '' Failed to parse source files: EACCES: permission denied''],
           produced = None, savedTo = None \<rparr>
   \<and> parseAllSourceFiles noRuleWorld (contractsPath noRuleWorld) = Parsed [sampleUnit ''A.sol'']
   \<and> analyzeTask noRuleWorld
       = \<lparr> ending = Exited 1,
           diagnostics = [crossMark @ '' Analysis failed: No rules found matching: zzz'',
                          newline # ''Stack trace:'', ''Error: No rules found matching: zzz''],
           produced = None, savedTo = None \<rparr>"
proof -
  have r: "reachesParser ioErrorWorld [sampleRuleA, sampleRuleB]"
    by (simp add: ioErrorWorld_def reachesParser_other_parser sample_reaches)
  have p: "parseAllSourceFiles ioErrorWorld (contractsPath ioErrorWorld)
     = OtherErrorRaised ''EACCES: permission denied''"
    by (simp add: ioErrorWorld_def)
  have a: "analyzeTask ioErrorWorld
      = \<lparr> ending = Exited 1,
           diagnostics = [crossMark @ '' Failed to parse source files: EACCES: permission denied''],
           produced = None, savedTo = None \<rparr>"
    by (simp add: analyzeTask_def taskBody_at_parser[OF r] p aborted_def)
  have args: "parseArgs noRuleWorld =
     \<lparr> argPlaybook = None, argPlaybookCid = None, argPlaybookId = None, argMode = None,
       argRules = Some ''zzz'', argFormat = None, argOutput = None, argShowSamples = False,
       argListPlaybooks = False, argUploadPlaybook = None, argAiEnabled = False \<rparr>"
    by (simp add: parseArgs_def noRuleWorld_def sampleWorld_def orElse_def truthyString_def
        hasFlag_def)
  have sel: "determineAnalysisRules noRuleWorld (parseArgs noRuleWorld)
      = Inl ''No rules found matching: zzz''"
    unfolding args
    by (simp add: determineAnalysisRules_def truthyString_def trim_def isSpace_def Let_def
        noRuleWorld_def sampleWorld_def sampleRuleA_def sampleRuleB_def)
  have init: "initialize noRuleWorld = None"
    by (simp add: noRuleWorld_def sampleWorld_def)
  have st: "stackTrace noRuleWorld ''No rules found matching: zzz''
      = Some ''Error: No rules found matching: zzz''"
    by (simp add: noRuleWorld_def sampleWorld_def)
  have "analyzeTask noRuleWorld = failed noRuleWorld ''No rules found matching: zzz''"
    using sel init
    by (simp add: analyzeTask_def taskBody_def Let_def truthyString_def args)
  then have b: "analyzeTask noRuleWorld
       = \<lparr> ending = Exited 1,
           diagnostics = [crossMark @ '' Analysis failed: No rules found matching: zzz'',
                          newline # ''Stack trace:'', ''Error: No rules found matching: zzz''],
           produced = None, savedTo = None \<rparr>"
    by (simp add: failed_def st truthyString_def)
  have q: "parseAllSourceFiles noRuleWorld (contractsPath noRuleWorld) = Parsed [sampleUnit ''A.sol'']"
    by (simp add: noRuleWorld_def sampleWorld_def)
  show ?thesis using p a q b by simp
qed

lemma sample_json_output:
  "analyzeTask sampleWorld
   = \<lparr> ending = Exited 1, diagnostics = [],
       produced = Some (JsonOutput
         \<lparr> totalIssues = 3, errorCount = 1, warningCount = 2, infoCount = 0 \<rparr>
         [newIssue ''a'' Warning ''A.sol'' 7 1 ''late'', newIssue ''a'' Warning ''A.sol'' 3 1 ''tie'',
          newIssue ''b'' Error ''A.sol'' 3 1 ''tie'']),
       savedTo = None \<rparr>"
proof -
  have p: "parseAllSourceFiles sampleWorld (contractsPath sampleWorld) = Parsed [sampleUnit ''A.sol'']"
    by (simp add: sampleWorld_def)
  have none: "aiRulesFor sampleWorld (parseArgs sampleWorld) [sampleRuleA, sampleRuleB] = []"
    by (simp add: aiRulesFor_def sample_args)
  have out: "argOutput (parseArgs sampleWorld) = None" "argFormat (parseArgs sampleWorld) = Some ''json''"
    "argAiEnabled (parseArgs sampleWorld) = False"
    by (simp_all add: sample_args)
  have "runAnalysis sampleWorld (parseArgs sampleWorld) [sampleRuleA, sampleRuleB] []
          [sampleUnit ''A.sol'']
    = Inr \<lparr> ending = Exited 1, diagnostics = [],
       produced = Some (JsonOutput
         \<lparr> totalIssues = 3, errorCount = 1, warningCount = 2, infoCount = 0 \<rparr>
         [newIssue ''a'' Warning ''A.sol'' 7 1 ''late'', newIssue ''a'' Warning ''A.sol'' 3 1 ''tie'',
          newIssue ''b'' Error ''A.sol'' 3 1 ''tie'']),
       savedTo = None \<rparr>"
    unfolding runAnalysis_def sample_found
    by (simp add: enhanceAll_def out writeResults_def outputJSON_def writeOutput_def
        truthyString_def circular_def getSummary_def addIssues_def newReporter_def
        hasErrors_def newIssue_def Let_def)
  then show ?thesis
    unfolding analyzeTask_def taskBody_at_parser[OF sample_reaches] p
    by (simp add: sample_active none)
qed

lemma ai_json_args:
  "parseArgs aiJsonWorld =
     \<lparr> argPlaybook = None, argPlaybookCid = None, argPlaybookId = None, argMode = None,
       argRules = None, argFormat = Some ''json'', argOutput = None, argShowSamples = False,
       argListPlaybooks = False, argUploadPlaybook = None, argAiEnabled = True \<rparr>"
  by (simp add: parseArgs_def aiJsonWorld_def sampleWorld_def orElse_def truthyString_def
      hasFlag_def)

lemma ai_json_reaches: "reachesParser aiJsonWorld [sampleRuleA, sampleRuleB]"
  by (simp add: reachesParser_def ai_json_args determineAnalysisRules_def truthyString_def)
     (simp add: aiJsonWorld_def sampleWorld_def)

text \<open>
  With AI enabled, an API key and the JSON format, the findings that the wrapped rules
  have marked make \<^verbatim>\<open>JSON.stringify\<close> raise: the run ends in the outer \<^verbatim>\<open>catch\<close>
  although the sources parse.
\<close>

lemma marked_findings_json:
  "analyzeTask aiJsonWorld
   = \<lparr> ending = Exited 1,
       diagnostics = [crossMark @ '' Analysis failed: Converting circular structure to JSON'',
                      newline # ''Stack trace:'', ''Error: Converting circular structure to JSON''],
       produced = None, savedTo = None \<rparr>"
proof -
  have p: "parseAllSourceFiles aiJsonWorld (contractsPath aiJsonWorld) = Parsed [sampleUnit ''A.sol'']"
    by (simp add: aiJsonWorld_def sampleWorld_def)
  have key: "truthyString (aiApiKey aiJsonWorld)"
    by (simp add: aiApiKey_def aiJsonWorld_def orElse_def truthyString_def Let_def)
  have active: "activeRulesFor aiJsonWorld (parseArgs aiJsonWorld) [sampleRuleA, sampleRuleB]
      = [wrappedRule \<lparr> baseRule = sampleRuleA, enableAI = True \<rparr>,
         wrappedRule \<lparr> baseRule = sampleRuleB, enableAI = True \<rparr>]"
    using key by (simp add: activeRulesFor_def aiRulesFor_def ai_json_args)
  have "needsAIEnhancement
          (hd (findings (analyzeMultiple
             [wrappedRule \<lparr> baseRule = sampleRuleA, enableAI = True \<rparr>,
              wrappedRule \<lparr> baseRule = sampleRuleB, enableAI = True \<rparr>] [sampleUnit ''A.sol''])))
        \<and> aiContext
          (hd (findings (analyzeMultiple
             [wrappedRule \<lparr> baseRule = sampleRuleA, enableAI = True \<rparr>,
              wrappedRule \<lparr> baseRule = sampleRuleB, enableAI = True \<rparr>] [sampleUnit ''A.sol''])))
          = Some (contextOf (sampleUnit ''A.sol''))
        \<and> findings (analyzeMultiple
             [wrappedRule \<lparr> baseRule = sampleRuleA, enableAI = True \<rparr>,
              wrappedRule \<lparr> baseRule = sampleRuleB, enableAI = True \<rparr>] [sampleUnit ''A.sol'']) \<noteq> []"
    by (simp add: wrappedRule_def applyAI_def sampleRuleA_def sampleRuleB_def Let_def
        markIssue_def newIssue_def contextOf_def sampleUnit_def)
  then have "\<exists>i\<in>set (findings (analyzeMultiple
             (activeRulesFor aiJsonWorld (parseArgs aiJsonWorld) [sampleRuleA, sampleRuleB])
             [sampleUnit ''A.sol''])). aiContext i \<noteq> None"
    unfolding active by (metis hd_in_set option.distinct(1))
  then have "runAnalysis aiJsonWorld (parseArgs aiJsonWorld)
               (activeRulesFor aiJsonWorld (parseArgs aiJsonWorld) [sampleRuleA, sampleRuleB])
               (aiRulesFor aiJsonWorld (parseArgs aiJsonWorld) [sampleRuleA, sampleRuleB])
               [sampleUnit ''A.sol'']
             = Inl (stringifyError aiJsonWorld)"
    by (intro runAnalysis_circular) (simp add: ai_json_args)
  then have "analyzeTask aiJsonWorld = failed aiJsonWorld (stringifyError aiJsonWorld)"
    unfolding analyzeTask_def taskBody_at_parser[OF ai_json_reaches] p by simp
  then show ?thesis
    by (simp add: failed_def aiJsonWorld_def sampleWorld_def truthyString_def)
qed

section \<open>Order of the written findings\<close>

text \<open>
  The claim C2 as stated fails. The task hands the collected findings to the JSON writer
  in the order of collection: the run of the sample world writes the finding of line 7
  before the findings of line 3 of the same file. And in the report itself, when rules
  report under the path of another file, the finding of the rule registered second
  (index 1) is listed before that of the rule registered first (index 0) at the same
  file, line and column.
\<close>

theorem written_findings_unsorted:
  "produced (analyzeTask sampleWorld)
     = Some (JsonOutput
         \<lparr> totalIssues = 3, errorCount = 1, warningCount = 2, infoCount = 0 \<rparr>
         [newIssue ''a'' Warning ''A.sol'' 7 1 ''late'', newIssue ''a'' Warning ''A.sol'' 3 1 ''tie'',
          newIssue ''b'' Error ''A.sol'' 3 1 ''tie''])
   \<and> locationLess codeUnitOrder
         (newIssue ''a'' Warning ''A.sol'' 3 1 ''tie'') (newIssue ''a'' Warning ''A.sol'' 7 1 ''late'')
   \<and> \<not> locationLess codeUnitOrder
         (newIssue ''a'' Warning ''A.sol'' 7 1 ''late'') (newIssue ''a'' Warning ''A.sol'' 3 1 ''tie'')
   \<and> \<not> sameLocation
         (newIssue ''a'' Warning ''A.sol'' 7 1 ''late'') (newIssue ''a'' Warning ''A.sol'' 3 1 ''tie'')
   \<and> findings (analyzeMultiple [strayRuleA, strayRuleB] [sampleUnit ''A.sol'', sampleUnit ''B.sol''])
       = [newIssue ''b'' Error ''X.sol'' 1 1 ''stray'', newIssue ''a'' Warning ''X.sol'' 1 1 ''stray'']
   \<and> ruleIndices [strayRuleA, strayRuleB] [sampleUnit ''A.sol'', sampleUnit ''B.sol''] = [1, 0]
   \<and> reportedIssues (fst (printReport codeUnitOrder (addIssues
         (findings (analyzeMultiple [strayRuleA, strayRuleB] [sampleUnit ''A.sol'', sampleUnit ''B.sol'']))
         newReporter)))
       = [newIssue ''b'' Error ''X.sol'' 1 1 ''stray'', newIssue ''a'' Warning ''X.sol'' 1 1 ''stray'']"
proof -
  have written: "produced (analyzeTask sampleWorld)
     = Some (JsonOutput
         \<lparr> totalIssues = 3, errorCount = 1, warningCount = 2, infoCount = 0 \<rparr>
         [newIssue ''a'' Warning ''A.sol'' 7 1 ''late'', newIssue ''a'' Warning ''A.sol'' 3 1 ''tie'',
          newIssue ''b'' Error ''A.sol'' 3 1 ''tie''])"
    by (simp add: sample_json_output)
  have order: "locationLess codeUnitOrder
         (newIssue ''a'' Warning ''A.sol'' 3 1 ''tie'') (newIssue ''a'' Warning ''A.sol'' 7 1 ''late'')"
    "\<not> locationLess codeUnitOrder
         (newIssue ''a'' Warning ''A.sol'' 7 1 ''late'') (newIssue ''a'' Warning ''A.sol'' 3 1 ''tie'')"
    "\<not> sameLocation
         (newIssue ''a'' Warning ''A.sol'' 7 1 ''late'') (newIssue ''a'' Warning ''A.sol'' 3 1 ''tie'')"
    by (simp_all add: locationLess_def sameLocation_def newIssue_def)
  have found: "findings (analyzeMultiple [strayRuleA, strayRuleB] [sampleUnit ''A.sol'', sampleUnit ''B.sol''])
       = [newIssue ''b'' Error ''X.sol'' 1 1 ''stray'', newIssue ''a'' Warning ''X.sol'' 1 1 ''stray'']"
    by (simp add: strayRuleA_def strayRuleB_def sampleUnit_def contextOf_def Let_def)
  have tags: "ruleIndices [strayRuleA, strayRuleB] [sampleUnit ''A.sol'', sampleUnit ''B.sol''] = [1, 0]"
    by (simp add: strayRuleA_def strayRuleB_def sampleUnit_def contextOf_def)
  show ?thesis
    using written order found tags stray_rules_order by simp
qed

section \<open>Isolation of a faulty rule\<close>

lemma applyRules_append:
  "findings (applyRules (before @ after) u) = findings (applyRules before u) @ findings (applyRules after u)
   \<and> failures (applyRules (before @ after) u) = failures (applyRules before u) @ failures (applyRules after u)"
  by (induction before) (auto simp: Let_def split: sum.splits)

lemma analyzeMultiple_append:
  "findings (analyzeMultiple active (pre @ post))
     = findings (analyzeMultiple active pre) @ findings (analyzeMultiple active post)
   \<and> failures (analyzeMultiple active (pre @ post))
     = failures (analyzeMultiple active pre) @ failures (analyzeMultiple active post)"
  by (induction pre) (auto simp: Let_def)

lemma applyRules_faulty:
  assumes "rule_apply bad (parsedAst u) (contextOf u) = Inl err"
  shows "findings (applyRules (before @ bad # after) u) = findings (applyRules (before @ after) u)"
    and "failures (applyRules (before @ bad # after) u)
         = failures (applyRules before u)
           @ \<lparr> failedRule = rule_id bad, failedFile = parsedFilePath u, failureText = err \<rparr>
           # failures (applyRules after u)"
  using assms by (simp_all add: applyRules_append Let_def)

lemma analyzeMultiple_faulty:
  assumes "list_all (\<lambda>u. isl (rule_apply bad (parsedAst u) (contextOf u))) units"
  shows "findings (analyzeMultiple (before @ bad # after) units)
         = findings (analyzeMultiple (before @ after) units)"
  using assms
proof (induction units)
  case Nil
  show ?case by simp
next
  case (Cons u us)
  then obtain err where "rule_apply bad (parsedAst u) (contextOf u) = Inl err"
    by (auto simp: isl_def)
  then show ?case
    using Cons by (simp add: Let_def applyRules_faulty(1))
qed

text \<open>
  Claim C6. When a rule raises on a file, the engine records a rule failure naming the
  rule and the file, and the findings of that file are those of the other rules, the
  same as in a run without the faulty rule; the files before and after are analysed as
  before; and when the rule raises on every file, the findings of the whole run are
  those of the run without it.
\<close>

theorem fault_isolation:
  assumes "rule_apply bad (parsedAst u) (contextOf u) = Inl err"
  shows "findings (applyRules (before @ bad # after) u) = findings (applyRules (before @ after) u)
       \<and> failures (applyRules (before @ bad # after) u)
           = failures (applyRules before u)
             @ \<lparr> failedRule = rule_id bad, failedFile = parsedFilePath u, failureText = err \<rparr>
             # failures (applyRules after u)
       \<and> findings (analyzeMultiple (before @ bad # after) (pre @ u # post))
           = findings (analyzeMultiple (before @ bad # after) pre)
             @ findings (applyRules (before @ after) u)
             @ findings (analyzeMultiple (before @ bad # after) post)
       \<and> (list_all (\<lambda>v. isl (rule_apply bad (parsedAst v) (contextOf v))) (pre @ post)
            \<longrightarrow> findings (analyzeMultiple (before @ bad # after) (pre @ u # post))
                = findings (analyzeMultiple (before @ after) (pre @ u # post)))"
proof (intro conjI impI)
  show "findings (applyRules (before @ bad # after) u) = findings (applyRules (before @ after) u)"
    using assms by (rule applyRules_faulty(1))
  show "failures (applyRules (before @ bad # after) u)
           = failures (applyRules before u)
             @ \<lparr> failedRule = rule_id bad, failedFile = parsedFilePath u, failureText = err \<rparr>
             # failures (applyRules after u)"
    using assms by (rule applyRules_faulty(2))
  show "findings (analyzeMultiple (before @ bad # after) (pre @ u # post))
           = findings (analyzeMultiple (before @ bad # after) pre)
             @ findings (applyRules (before @ after) u)
             @ findings (analyzeMultiple (before @ bad # after) post)"
    using applyRules_faulty(1)[OF assms, of before after]
    by (simp add: analyzeMultiple_append Let_def)
  assume "list_all (\<lambda>v. isl (rule_apply bad (parsedAst v) (contextOf v))) (pre @ post)"
  then have "list_all (\<lambda>v. isl (rule_apply bad (parsedAst v) (contextOf v))) (pre @ u # post)"
    using assms by simp
  then show "findings (analyzeMultiple (before @ bad # after) (pre @ u # post))
                = findings (analyzeMultiple (before @ after) (pre @ u # post))"
    by (rule analyzeMultiple_faulty)
qed

theorem fault_isolation_witness:
  "rule_apply faultyRule (parsedAst (sampleUnit ''A.sol'')) (contextOf (sampleUnit ''A.sol''))
     = Inl ''TypeError: node is undefined''
   \<and> findings (applyRules [sampleRuleA, faultyRule, sampleRuleB] (sampleUnit ''A.sol''))
       = findings (applyRules [sampleRuleA, sampleRuleB] (sampleUnit ''A.sol''))
   \<and> failures (applyRules [sampleRuleA, faultyRule, sampleRuleB] (sampleUnit ''A.sol''))
       = [\<lparr> failedRule = ''faulty'', failedFile = ''A.sol'',
            failureText = ''TypeError: node is undefined'' \<rparr>]
   \<and> length (findings (analyzeMultiple [sampleRuleA, faultyRule, sampleRuleB]
                [sampleUnit ''A.sol'', sampleUnit ''B.sol''])) = 6"
proof -
  have raises: "rule_apply faultyRule (parsedAst (sampleUnit ''A.sol'')) (contextOf (sampleUnit ''A.sol''))
     = Inl ''TypeError: node is undefined''"
    by (simp add: faultyRule_def)
  have always: "list_all (\<lambda>v. isl (rule_apply faultyRule (parsedAst v) (contextOf v)))
      ([] @ [sampleUnit ''B.sol''])"
    by (simp add: faultyRule_def)
  have fa: "failures (applyRules [sampleRuleA] (sampleUnit ''A.sol'')) = []"
    and fb: "failures (applyRules [sampleRuleB] (sampleUnit ''A.sol'')) = []"
    by (simp_all add: sampleRuleA_def sampleRuleB_def Let_def)
  have six: "length (findings (analyzeMultiple [sampleRuleA, sampleRuleB]
                [sampleUnit ''A.sol'', sampleUnit ''B.sol''])) = 6"
    by (simp add: sampleRuleA_def sampleRuleB_def Let_def)
  have id: "rule_id faultyRule = ''faulty''" and path: "parsedFilePath (sampleUnit ''A.sol'') = ''A.sol''"
    by (simp_all add: faultyRule_def sampleUnit_def)
  note th = fault_isolation[OF raises, of "[sampleRuleA]" "[sampleRuleB]" "[]" "[sampleUnit ''B.sol'']"]
  have c1: "findings (applyRules [sampleRuleA, faultyRule, sampleRuleB] (sampleUnit ''A.sol''))
       = findings (applyRules [sampleRuleA, sampleRuleB] (sampleUnit ''A.sol''))"
    using th[THEN conjunct1] by (simp del: applyRules.simps)
  have c2: "failures (applyRules [sampleRuleA, faultyRule, sampleRuleB] (sampleUnit ''A.sol''))
       = [\<lparr> failedRule = ''faulty'', failedFile = ''A.sol'',
            failureText = ''TypeError: node is undefined'' \<rparr>]"
    using th[THEN conjunct2, THEN conjunct1]
    by (simp add: fa fb id path del: applyRules.simps)
  have c4: "findings (analyzeMultiple [sampleRuleA, faultyRule, sampleRuleB]
                [sampleUnit ''A.sol'', sampleUnit ''B.sol''])
      = findings (analyzeMultiple [sampleRuleA, sampleRuleB]
                [sampleUnit ''A.sol'', sampleUnit ''B.sol''])"
    using th[THEN conjunct2, THEN conjunct2, THEN conjunct2, THEN mp, OF always]
    by (simp del: applyRules.simps analyzeMultiple.simps)
  show ?thesis
    using raises c1 c2 six unfolding c4 by blast
qed

section \<open>Unknown predicates\<close>

lemma compile_append:
  "compile vocabulary (pre @ post)
   = (fst (compile vocabulary pre) @ fst (compile vocabulary post),
      snd (compile vocabulary pre) @ snd (compile vocabulary post))"
  by (induction pre) (auto split: sum.splits)

lemma compile_one_each:
  "length (fst (compile vocabulary checks)) + length (snd (compile vocabulary checks)) = length checks"
  by (induction checks) (auto split: sum.splits)

lemma compileCheck_unknown:
  assumes "name \<in> set (checkPredicates check)" and "map_of vocabulary name = None"
  shows "\<exists>bad. compileCheck vocabulary check = Inl \<lparr> errorCheck = checkId check, unknownPredicate = bad \<rparr>
           \<and> bad \<in> set (checkPredicates check) \<and> map_of vocabulary bad = None"
proof -
  have "name \<in> set (unknownNames vocabulary check)"
    using assms by (simp add: unknownNames_def)
  then obtain bad others where u: "unknownNames vocabulary check = bad # others"
    by (cases "unknownNames vocabulary check") auto
  then have "bad \<in> set (unknownNames vocabulary check)" by simp
  then have "bad \<in> set (checkPredicates check) \<and> map_of vocabulary bad = None"
    by (simp add: unknownNames_def)
  then show ?thesis
    using u by (simp add: compileCheck_def)
qed

lemma compileCheck_known:
  "(\<exists>rule. compileCheck vocabulary check = Inr rule)
   \<longleftrightarrow> list_all (\<lambda>name. map_of vocabulary name \<noteq> None) (checkPredicates check)"
proof -
  have "unknownNames vocabulary check = []
      \<longleftrightarrow> list_all (\<lambda>name. map_of vocabulary name \<noteq> None) (checkPredicates check)"
    by (simp add: unknownNames_def filter_empty_conv list_all_iff)
  then show ?thesis
    by (cases "unknownNames vocabulary check") (simp_all add: compileCheck_def)
qed

text \<open>
  Claim C7. A check that names a predicate outside the compiler's vocabulary compiles to
  a compile error for that one check and to no rule, while the checks before and after
  it compile as they do alone; every check gives exactly one rule or one error; a check
  gives a rule exactly when all its predicate names are in the vocabulary, and what that
  rule does is fixed by the vocabulary's own predicates under those names: nothing else
  of the playbook is interpreted.
\<close>

theorem unknown_predicate_rejected:
  assumes "name \<in> set (checkPredicates check)" and "map_of vocabulary name = None"
  shows "(\<exists>bad. compileCheck vocabulary check
              = Inl \<lparr> errorCheck = checkId check, unknownPredicate = bad \<rparr>
            \<and> bad \<in> set (checkPredicates check) \<and> map_of vocabulary bad = None
            \<and> compile vocabulary (pre @ check # post)
                = (fst (compile vocabulary pre) @ fst (compile vocabulary post),
                   snd (compile vocabulary pre)
                   @ \<lparr> errorCheck = checkId check, unknownPredicate = bad \<rparr>
                   # snd (compile vocabulary post)))
       \<and> length (fst (compile vocabulary (pre @ check # post)))
            + length (snd (compile vocabulary (pre @ check # post)))
          = length (pre @ check # post)
       \<and> ((\<exists>rule. compileCheck vocabulary other = Inr rule)
            \<longleftrightarrow> list_all (\<lambda>n. map_of vocabulary n \<noteq> None) (checkPredicates other))
       \<and> (\<forall>rule. compileCheck vocabulary other = Inr rule
            \<longrightarrow> rule_apply rule = compiledApply vocabulary other)"
proof (intro conjI)
  obtain bad where b: "compileCheck vocabulary check
        = Inl \<lparr> errorCheck = checkId check, unknownPredicate = bad \<rparr>"
      "bad \<in> set (checkPredicates check)" "map_of vocabulary bad = None"
    using compileCheck_unknown[OF assms] by blast
  have "compile vocabulary (pre @ check # post)
          = (fst (compile vocabulary pre) @ fst (compile vocabulary post),
             snd (compile vocabulary pre)
             @ \<lparr> errorCheck = checkId check, unknownPredicate = bad \<rparr>
             # snd (compile vocabulary post))"
    by (simp add: compile_append[of vocabulary pre "check # post"] b(1))
  then show "\<exists>bad. compileCheck vocabulary check
              = Inl \<lparr> errorCheck = checkId check, unknownPredicate = bad \<rparr>
            \<and> bad \<in> set (checkPredicates check) \<and> map_of vocabulary bad = None
            \<and> compile vocabulary (pre @ check # post)
                = (fst (compile vocabulary pre) @ fst (compile vocabulary post),
                   snd (compile vocabulary pre)
                   @ \<lparr> errorCheck = checkId check, unknownPredicate = bad \<rparr>
                   # snd (compile vocabulary post))"
    using b by blast
  show "length (fst (compile vocabulary (pre @ check # post)))
            + length (snd (compile vocabulary (pre @ check # post)))
          = length (pre @ check # post)"
    by (rule compile_one_each)
  show "(\<exists>rule. compileCheck vocabulary other = Inr rule)
            \<longleftrightarrow> list_all (\<lambda>n. map_of vocabulary n \<noteq> None) (checkPredicates other)"
    by (rule compileCheck_known)
  show "\<forall>rule. compileCheck vocabulary other = Inr rule
            \<longrightarrow> rule_apply rule = compiledApply vocabulary other"
    by (auto simp: compileCheck_def split: list.splits)
qed

theorem unknown_predicate_rejected_witness:
  "''eval(process.exit())'' \<in> set (checkPredicates unknownCheck)
   \<and> map_of sampleVocabulary ''eval(process.exit())'' = None
   \<and> map rule_id (fst (compile sampleVocabulary [knownCheck, unknownCheck, knownCheck]))
       = [''no-tx-origin'', ''no-tx-origin'']
   \<and> snd (compile sampleVocabulary [knownCheck, unknownCheck, knownCheck])
       = [\<lparr> errorCheck = ''custom'', unknownPredicate = ''eval(process.exit())'' \<rparr>]"
proof -
  have h1: "''eval(process.exit())'' \<in> set (checkPredicates unknownCheck)"
    by (simp add: unknownCheck_def)
  have h2: "map_of sampleVocabulary ''eval(process.exit())'' = None"
    by (simp add: sampleVocabulary_def)
  have k: "map rule_id (fst (compile sampleVocabulary [knownCheck])) = [''no-tx-origin'']"
      "snd (compile sampleVocabulary [knownCheck]) = []"
    by (simp_all add: compileCheck_def unknownNames_def knownCheck_def sampleVocabulary_def)
  have u: "unknownNames sampleVocabulary unknownCheck = [''eval(process.exit())'']"
    by (simp add: unknownNames_def unknownCheck_def sampleVocabulary_def)
  obtain bad where b: "compileCheck sampleVocabulary unknownCheck
        = Inl \<lparr> errorCheck = checkId unknownCheck, unknownPredicate = bad \<rparr>"
      "compile sampleVocabulary ([knownCheck] @ unknownCheck # [knownCheck])
         = (fst (compile sampleVocabulary [knownCheck]) @ fst (compile sampleVocabulary [knownCheck]),
            snd (compile sampleVocabulary [knownCheck])
            @ \<lparr> errorCheck = checkId unknownCheck, unknownPredicate = bad \<rparr>
            # snd (compile sampleVocabulary [knownCheck]))"
    using unknown_predicate_rejected[OF h1 h2, of "[knownCheck]" "[knownCheck]", THEN conjunct1]
    by blast
  have bad: "bad = ''eval(process.exit())''"
    using b(1) by (simp add: compileCheck_def u)
  have c: "compile sampleVocabulary [knownCheck, unknownCheck, knownCheck]
      = compile sampleVocabulary ([knownCheck] @ unknownCheck # [knownCheck])"
    by simp
  show ?thesis
    using h1 h2 unfolding c b(2) bad
    by (simp add: k unknownCheck_def del: compile.simps)
qed

section \<open>The reentrancy rule on straight-line bodies\<close>
























end
